theory Spec2Isabelle
  imports Complex_Main
begin

section \<open>The TMDB data-access layer\<close>

text \<open>
  A shallow embedding of the optimised TMDB service module: the two-tier cache with its
  24 hour time to live, the request queue, the batch helper, the catalogue calls and the
  enrichment of a movie with its details. Module-level variables (the in-memory map,
  \<open>localStorage\<close>, the clock, the random source, the log of network calls) are the
  fields of a \<open>world\<close> record that every operation takes and returns. A promise that
  rejects, and a statement that throws, is the \<open>Inl\<close> branch of a sum.
\<close>

subsection \<open>Values\<close>

datatype error =
    TypeError
  | SyntaxError
  | StorageError
  | TMDBApiError nat string
  | FetchFailed

text \<open>A JavaScript number that holds a calendar year: \<open>getFullYear\<close> of an invalid
  date is \<open>NaN\<close>.\<close>

datatype jsnum = Num int | NaN

definition digit :: "nat \<Rightarrow> char" where
  "digit n = ''0123456789'' ! (n mod 10)"

text \<open>\<open>toString\<close> of an integral number, as template literals and \<open>page.toString()\<close>
  use it.\<close>

fun toStringNat :: "nat \<Rightarrow> string" where
  "toStringNat n = (if n < 10 then [digit n] else toStringNat (n div 10) @ [digit (n mod 10)])"

declare toStringNat.simps [simp del]

definition toString :: "int \<Rightarrow> string" where
  "toString i = (if i < 0 then CHR ''-'' # toStringNat (nat (- i)) else toStringNat (nat i))"

definition startsWith :: "string \<Rightarrow> string \<Rightarrow> bool" where
  "startsWith k p = (take (length p) k = p)"

subsection \<open>Data model (types/movie.ts)\<close>

record Movie =
  movie_id :: int
  title :: string
  year :: jsnum
  genre :: "string list"
  tagline :: string
  rating :: string
  runtime :: string
  available :: bool
  poster :: string
  backdrop :: "string option"
  tmdbRating :: "real option"
  overview :: "string option"

record TMDBMovie =
  tmdb_id :: int
  tmdb_title :: string
  original_title :: string
  tmdb_overview :: string
  poster_path :: "string option"
  backdrop_path :: "string option"
  release_date :: string
  genre_ids :: "int list"
  vote_average :: real
  vote_count :: int
  popularity :: real
  adult :: bool
  original_language :: string
  video :: bool

record TMDBGenre =
  genre_id :: int
  name :: string

record TMDBMovieDetails = TMDBMovie +
  details_tagline :: string
  details_runtime :: "int option"
  genres :: "TMDBGenre list"
  status :: string
  budget :: int
  revenue :: int
  imdb_id :: "string option"

record TMDBMovieResponse =
  page :: int
  results :: "TMDBMovie list"
  total_pages :: int
  total_results :: int

text \<open>
  The release-dates sub-resource as it arrives from the network. The declared type makes
  every field mandatory; the value at run time is whatever JSON the server sent, so each
  field and each array element is an \<open>option\<close>, \<open>None\<close> standing for a value that is
  missing or \<open>null\<close>: it is falsy, and reading a property of it throws \<open>TypeError\<close>.
\<close>

record ReleaseDate =
  certification :: "string option"

record ReleaseDateResult =
  iso_3166_1 :: "string option"
  release_dates :: "ReleaseDate option list option"

record ReleaseDates =
  rd_results :: "ReleaseDateResult option list option"

record TMDBMovieDetailsWithReleaseDates = TMDBMovieDetails +
  resp_release_dates :: "ReleaseDates option"

record CachedMovieDetails =
  details :: TMDBMovieDetails
  cached_certification :: string

record PageResult =
  movies :: "Movie list"
  totalPages :: int
  totalResults :: int

text \<open>The cache holds values of both shapes in one map (\<open>CacheEntry<unknown>\<close>); the
  type argument of \<open>getFromCache\<close> is an unchecked cast.\<close>

datatype cache_data = PageData PageResult | DetailsData CachedMovieDetails

record CacheEntry =
  data :: cache_data
  timestamp :: int

subsection \<open>The world: module state and browser state\<close>

text \<open>
  What \<open>localStorage\<close> holds under a key, named by what the read path makes of the
  string: the empty string (falsy, never parsed), a string on which \<open>JSON.parse\<close> throws
  (or that parses to \<open>null\<close>, so that reading its timestamp throws), a string that
  parses to a value with no numeric timestamp (the age is \<open>NaN\<close> and compares false),
  and the serialisation of an entry. An entry written by \<open>saveToCache\<close> is kept as the
  entry: \<open>JSON.parse (JSON.stringify e)\<close> is taken to be \<open>e\<close>.
\<close>

datatype stored = EmptyString | Unparseable | NoTimestamp | Json CacheEntry

record Storage =
  items :: "string \<rightharpoonup> stored"
  quotaExceeded :: bool

text \<open>A request is the endpoint and the query parameters set on the URL, in order.\<close>

type_synonym request = "string \<times> (string \<times> string) list"

record world =
  memoryCache :: "string \<rightharpoonup> CacheEntry"
  localStorage :: "Storage option"
  now :: int
  randoms :: "nat \<Rightarrow> real"
  drawn :: nat
  fetched :: "request list"
  queued :: "request list"

text \<open>
  \<open>localStorage w = None\<close>: there is no usable storage and every access throws.
  \<open>now\<close> is \<open>Date.now()\<close>; the caller of the model advances it between operations.
  \<open>randoms\<close> is the sequence \<open>Math.random()\<close> returns and \<open>drawn\<close> how many
  of them were consumed. \<open>fetched\<close> logs every call of \<open>fetch\<close>, \<open>queued\<close> every
  unit admitted to the request queue, oldest first.
\<close>

subsection \<open>Caching layer\<close>

definition CACHE_TTL :: int where
  "CACHE_TTL = 24 * 60 * 60 * 1000"

definition CACHE_PREFIX :: string where
  "CACHE_PREFIX = ''tmdb_cache_''"

definition getCacheKey :: "string \<Rightarrow> string \<Rightarrow> string" where
  "getCacheKey type ident = CACHE_PREFIX @ type @ ''_'' @ ident"

definition getItem :: "string \<Rightarrow> world \<Rightarrow> error + stored option" where
  "getItem key w =
     (case localStorage w of
        None \<Rightarrow> Inl StorageError
      | Some st \<Rightarrow> Inr (items st key))"

definition removeItem :: "string \<Rightarrow> world \<Rightarrow> error + world" where
  "removeItem key w =
     (case localStorage w of
        None \<Rightarrow> Inl StorageError
      | Some st \<Rightarrow> Inr (w\<lparr>localStorage := Some (st\<lparr>items := (items st)(key := None)\<rparr>)\<rparr>))"

definition setItem :: "string \<Rightarrow> stored \<Rightarrow> world \<Rightarrow> error + world" where
  "setItem key v w =
     (case localStorage w of
        None \<Rightarrow> Inl StorageError
      | Some st \<Rightarrow>
          if quotaExceeded st then Inl StorageError
          else Inr (w\<lparr>localStorage := Some (st\<lparr>items := (items st)(key \<mapsto> v)\<rparr>)\<rparr>))"

text \<open>The body of the \<open>try\<close> block of \<open>getFromCache\<close>. \<open>Inr (None, w')\<close> is the
  block running to its end, after which the function returns \<open>null\<close>.\<close>

definition readStorage :: "string \<Rightarrow> world \<Rightarrow> error + (cache_data option \<times> world)" where
  "readStorage key w =
     (case getItem key w of
        Inl e \<Rightarrow> Inl e
      | Inr None \<Rightarrow> Inr (None, w)
      | Inr (Some EmptyString) \<Rightarrow> Inr (None, w)
      | Inr (Some Unparseable) \<Rightarrow> Inl SyntaxError
      | Inr (Some NoTimestamp) \<Rightarrow>
          (case removeItem key w of Inl e \<Rightarrow> Inl e | Inr w' \<Rightarrow> Inr (None, w'))
      | Inr (Some (Json entry)) \<Rightarrow>
          if now w - timestamp entry < CACHE_TTL
          then Inr (Some (data entry), w\<lparr>memoryCache := (memoryCache w)(key \<mapsto> entry)\<rparr>)
          else (case removeItem key w of Inl e \<Rightarrow> Inl e | Inr w' \<Rightarrow> Inr (None, w')))"

definition fromStorage :: "string \<Rightarrow> world \<Rightarrow> cache_data option \<times> world" where
  "fromStorage key w =
     (case readStorage key w of
        Inl e \<Rightarrow> (None, w)
      | Inr r \<Rightarrow> r)"

definition getFromCache :: "string \<Rightarrow> world \<Rightarrow> cache_data option \<times> world" where
  "getFromCache key w =
     (case memoryCache w key of
        Some memCached \<Rightarrow>
          if now w - timestamp memCached < CACHE_TTL then (Some (data memCached), w)
          else fromStorage key w
      | None \<Rightarrow> fromStorage key w)"

definition saveToCache :: "string \<Rightarrow> cache_data \<Rightarrow> world \<Rightarrow> world" where
  "saveToCache key d w =
     (let entry = \<lparr>data = d, timestamp = now w\<rparr>;
          w1 = w\<lparr>memoryCache := (memoryCache w)(key \<mapsto> entry)\<rparr>
      in case setItem key (Json entry) w1 of
           Inl e \<Rightarrow> w1
         | Inr w2 \<Rightarrow> w2)"

definition clearCache :: "world \<Rightarrow> world" where
  "clearCache w =
     (let w1 = w\<lparr>memoryCache := Map.empty\<rparr>
      in case localStorage w1 of
           None \<Rightarrow> w1
         | Some st \<Rightarrow>
             w1\<lparr>localStorage :=
                  Some (st\<lparr>items := (\<lambda>k. if startsWith k CACHE_PREFIX then None else items st k)\<rparr>)\<rparr>)"

subsection \<open>Catalogue client\<close>

text \<open>
  \<open>fetchTMDB\<close> builds the URL and calls \<open>fetch\<close>. The server is a parameter: what it
  answers to a request, given how many requests were made before. \<open>Inl\<close> is a status
  that is not ok (\<open>TMDBApiError\<close> with the status and its text) or a failed transfer.
  The API key and the base URL are configuration constants, the same on every request,
  and are left out of the logged request.
\<close>

definition fetchTMDB ::
  "(request \<Rightarrow> nat \<Rightarrow> error + 'r) \<Rightarrow> string \<Rightarrow> (string \<times> string) list \<Rightarrow> world
     \<Rightarrow> (error + 'r) \<times> world" where
  "fetchTMDB server endpoint params w =
     (server (endpoint, params) (length (fetched w)),
      w\<lparr>fetched := fetched w @ [(endpoint, params)]\<rparr>)"

text \<open>The queued variant, for a caller that awaits its result: the unit is admitted to
  the request queue and its outcome is delivered to that caller.\<close>

definition fetchTMDBQueued ::
  "(request \<Rightarrow> nat \<Rightarrow> error + 'r) \<Rightarrow> string \<Rightarrow> (string \<times> string) list \<Rightarrow> world
     \<Rightarrow> (error + 'r) \<times> world" where
  "fetchTMDBQueued server endpoint params w =
     fetchTMDB server endpoint params (w\<lparr>queued := queued w @ [(endpoint, params)]\<rparr>)"

definition discoverParams :: "int \<Rightarrow> int option \<Rightarrow> string \<Rightarrow> (string \<times> string) list" where
  "discoverParams p genreId sortBy =
     [(''page'', toString p),
      (''sort_by'', sortBy),
      (''primary_release_date.gte'', ''1980-01-01''),
      (''primary_release_date.lte'', ''1989-12-31''),
      (''include_adult'', ''false''),
      (''include_video'', ''false''),
      (''language'', ''en-US'')]
     @ (case genreId of
          None \<Rightarrow> []
        | Some g \<Rightarrow> if g \<noteq> 0 then [(''with_genres'', toString g)] else [])"

definition discoverMovies ::
  "(request \<Rightarrow> nat \<Rightarrow> error + TMDBMovieResponse) \<Rightarrow> int \<Rightarrow> int option \<Rightarrow> string \<Rightarrow> world
     \<Rightarrow> (error + TMDBMovieResponse) \<times> world" where
  "discoverMovies server p genreId sortBy w =
     fetchTMDB server ''/discover/movie'' (discoverParams p genreId sortBy) w"

text \<open>\<open>Array.prototype.find\<close> with a predicate that reads a property of the element:
  the call throws at the first element that is \<open>null\<close>, if no earlier one matched.\<close>

fun find_js :: "('a \<Rightarrow> bool) \<Rightarrow> 'a option list \<Rightarrow> error + 'a option" where
  "find_js P [] = Inr None"
| "find_js P (None # xs) = Inl TypeError"
| "find_js P (Some x # xs) = (if P x then Inr (Some x) else find_js P xs)"

definition truthy :: "string option \<Rightarrow> bool" where
  "truthy s = (case s of None \<Rightarrow> False | Some t \<Rightarrow> t \<noteq> [])"

definition extractUSCertification :: "ReleaseDates option \<Rightarrow> error + string" where
  "extractUSCertification releaseDates =
     (case releaseDates of
        None \<Rightarrow> Inr ''NR''
      | Some rd \<Rightarrow>
          (case rd_results rd of
             None \<Rightarrow> Inr ''NR''
           | Some rs \<Rightarrow>
               (case find_js (\<lambda>r. iso_3166_1 r = Some ''US'') rs of
                  Inl e \<Rightarrow> Inl e
                | Inr None \<Rightarrow> Inr ''NR''
                | Inr (Some usRelease) \<Rightarrow>
                    (case release_dates usRelease of
                       None \<Rightarrow> Inl TypeError
                     | Some rds \<Rightarrow>
                         if length rds > 0 then
                           (case find_js (\<lambda>d. truthy (certification d)) rds of
                              Inl e \<Rightarrow> Inl e
                            | Inr None \<Rightarrow> Inr ''NR''
                            | Inr (Some d) \<Rightarrow>
                                (case certification d of
                                   None \<Rightarrow> Inr ''NR''
                                 | Some c \<Rightarrow> if c \<noteq> [] then Inr c else Inr ''NR''))
                         else Inr ''NR''))))"

definition getMovieDetailsWithCertification ::
  "(request \<Rightarrow> nat \<Rightarrow> error + TMDBMovieDetailsWithReleaseDates) \<Rightarrow> int \<Rightarrow> world
     \<Rightarrow> (error + cache_data) \<times> world" where
  "getMovieDetailsWithCertification server movieId w =
     (let cacheKey = getCacheKey ''movie_details'' (toString movieId)
      in case getFromCache cacheKey w of
           (Some cached, w1) \<Rightarrow> (Inr cached, w1)
         | (None, w1) \<Rightarrow>
             (case fetchTMDBQueued server (''/movie/'' @ toString movieId)
                     [(''append_to_response'', ''release_dates''), (''language'', ''en-US'')] w1 of
                (Inl e, w2) \<Rightarrow> (Inl e, w2)
              | (Inr response, w2) \<Rightarrow>
                  (case extractUSCertification (resp_release_dates response) of
                     Inl e \<Rightarrow> (Inl e, w2)
                   | Inr cert \<Rightarrow>
                       let result = DetailsData
                             \<lparr>details = TMDBMovieDetails.truncate response,
                              cached_certification = cert\<rparr>
                       in (Inr result, saveToCache cacheKey result w2))))"

definition mapGenreIds :: "int list \<Rightarrow> (int \<rightharpoonup> string) \<Rightarrow> string list" where
  "mapGenreIds genreIds genreMap = List.map_filter genreMap genreIds"

text \<open>
  The literal \<open>0.1\<close> of the source is a double: the one nearest to one tenth, a little
  above it. Doubles compare by their values, so the comparison of the model is on reals.
\<close>

definition double_0_1 :: real where
  "double_0_1 = 3602879701896397 / 2 ^ 55"

text \<open>
  \<open>transformTMDBMovie\<close>. Two things the function reads from its environment are
  parameters: \<open>getFullYear s\<close> is \<open>new Date(s).getFullYear()\<close> of the runtime (its
  parser and its time zone), \<open>NaN\<close> for an invalid date, and \<open>r\<close> is the value of the
  double the call of \<open>Math.random()\<close> returns.
\<close>

definition transformTMDBMovie ::
  "(string \<Rightarrow> jsnum) \<Rightarrow> TMDBMovie \<Rightarrow> (int \<rightharpoonup> string) \<Rightarrow> string \<Rightarrow> TMDBMovieDetails option
     \<Rightarrow> real \<Rightarrow> Movie" where
  "transformTMDBMovie getFullYear tmdbMovie genreMap cert dets r =
     \<lparr>movie_id = tmdb_id tmdbMovie,
      title = tmdb_title tmdbMovie,
      year = (if release_date tmdbMovie \<noteq> [] then getFullYear (release_date tmdbMovie)
              else Num 0),
      genre = mapGenreIds (genre_ids tmdbMovie) genreMap,
      tagline = (case dets of None \<Rightarrow> [] | Some d \<Rightarrow> details_tagline d),
      rating = cert,
      runtime = (case dets of
                   None \<Rightarrow> []
                 | Some d \<Rightarrow>
                     (case details_runtime d of
                        None \<Rightarrow> []
                      | Some n \<Rightarrow> if n \<noteq> 0 then toString n @ '' min'' else [])),
      available = (r > double_0_1),
      poster = (case poster_path tmdbMovie of None \<Rightarrow> [] | Some pp \<Rightarrow> pp),
      backdrop = None,
      tmdbRating = Some (vote_average tmdbMovie),
      overview = Some (tmdb_overview tmdbMovie)\<rparr>"

subsection \<open>Enrichment pipeline\<close>

text \<open>\<open>response.results.map\<close> over \<open>transformTMDBMovie\<close> with the certification and
  the details left at their defaults: one draw of \<open>Math.random()\<close> per movie, in order.\<close>

fun transformAll ::
  "(string \<Rightarrow> jsnum) \<Rightarrow> (int \<rightharpoonup> string) \<Rightarrow> TMDBMovie list \<Rightarrow> world \<Rightarrow> Movie list \<times> world" where
  "transformAll getFullYear genreMap [] w = ([], w)"
| "transformAll getFullYear genreMap (m # ms) w =
     (let r = randoms w (drawn w);
          rest = transformAll getFullYear genreMap ms (w\<lparr>drawn := Suc (drawn w)\<rparr>)
      in (transformTMDBMovie getFullYear m genreMap ''NR'' None r # fst rest, snd rest))"

definition discoverKey :: "int \<Rightarrow> int option \<Rightarrow> string" where
  "discoverKey p genreId =
     getCacheKey ''discover_page''
       (toString p @ ''_'' @
        (case genreId of None \<Rightarrow> ''all'' | Some g \<Rightarrow> if g \<noteq> 0 then toString g else ''all''))"

definition fetchMoviesBasic ::
  "(request \<Rightarrow> nat \<Rightarrow> error + TMDBMovieResponse) \<Rightarrow> (string \<Rightarrow> jsnum) \<Rightarrow> int \<Rightarrow> int option
     \<Rightarrow> (int \<rightharpoonup> string) \<Rightarrow> world \<Rightarrow> (error + cache_data) \<times> world" where
  "fetchMoviesBasic server getFullYear p genreId genreMap w =
     (let cacheKey = discoverKey p genreId
      in case getFromCache cacheKey w of
           (Some cached, w1) \<Rightarrow> (Inr cached, w1)
         | (None, w1) \<Rightarrow>
             (case discoverMovies server p genreId ''popularity.desc'' w1 of
                (Inl e, w2) \<Rightarrow> (Inl e, w2)
              | (Inr response, w2) \<Rightarrow>
                  if length (results response) = 0
                  then (Inr (PageData \<lparr>movies = [], totalPages = 0, totalResults = 0\<rparr>), w2)
                  else
                    (let tr = transformAll getFullYear genreMap (results response) w2;
                         result = PageData
                           \<lparr>movies = fst tr,
                            totalPages = total_pages response,
                            totalResults = total_results response\<rparr>
                     in (Inr result, saveToCache cacheKey result (snd tr)))))"

text \<open>The object literal \<open>enrichMovieWithDetails\<close> returns on success: the movie
  spread, then the four fields it sets.\<close>

definition merged :: "CachedMovieDetails \<Rightarrow> Movie \<Rightarrow> Movie" where
  "merged c movie =
     movie\<lparr>tagline := (if details_tagline (details c) \<noteq> [] then details_tagline (details c)
                        else tagline movie),
           runtime := (case details_runtime (details c) of
                         None \<Rightarrow> runtime movie
                       | Some n \<Rightarrow> if n \<noteq> 0 then toString n @ '' min'' else runtime movie),
           rating := cached_certification c,
           genre := (if length (genres (details c)) > 0 then map name (genres (details c))
                     else genre movie)\<rparr>"

text \<open>
  \<open>enrichMovieWithDetails\<close>. A cached value of the wrong shape destructures to
  \<open>undefined\<close>, reading \<open>details.tagline\<close> throws, and the \<open>catch\<close> returns the
  movie, as it does when the fetch rejects. The \<open>genreMap\<close> parameter of the source is
  never read and is left out.
\<close>

definition enrichMovieWithDetails ::
  "(request \<Rightarrow> nat \<Rightarrow> error + TMDBMovieDetailsWithReleaseDates) \<Rightarrow> Movie \<Rightarrow> world
     \<Rightarrow> Movie \<times> world" where
  "enrichMovieWithDetails server movie w =
     (case getMovieDetailsWithCertification server (movie_id movie) w of
        (Inl e, w1) \<Rightarrow> (movie, w1)
      | (Inr (PageData pr), w1) \<Rightarrow> (movie, w1)
      | (Inr (DetailsData c), w1) \<Rightarrow> (merged c movie, w1))"

subsection \<open>Request scheduler\<close>

text \<open>
  The queue and its worker loop as a state machine over the atomic blocks between two
  \<open>await\<close>s. A unit of work is the identity of its caller and what its \<open>requestFn\<close>
  does: resolve, reject, or never settle. The worker is idle, or suspended on the
  running unit, or suspended on the timer of \<open>REQUEST_DELAY\<close>. The trace records, in
  order, each unit being started, the settlement of the promise \<open>queueRequest\<close> gave
  its caller, and each delay that elapsed.
\<close>

definition REQUEST_DELAY :: nat where "REQUEST_DELAY = 100"

datatype 'a outcome = Resolves 'a | Rejects error | Pending

datatype 'a sched_event = Started nat | Resolved nat 'a | Rejected nat error | Delayed nat

datatype 'a worker = Idle | Running nat "'a outcome" | Sleeping

record 'a scheduler =
  REQUEST_QUEUE :: "(nat \<times> 'a outcome) list"
  isProcessingQueue :: bool
  worker :: "'a worker"
  trace :: "'a sched_event list"

text \<open>The head of the \<open>while\<close> loop: with a unit in the queue, shift it and call it,
  which runs its \<open>requestFn\<close> up to the first \<open>await\<close>; with none, leave the loop and
  reset the flag.\<close>

definition loopHead :: "'a scheduler \<Rightarrow> 'a scheduler" where
  "loopHead s =
     (case REQUEST_QUEUE s of
        [] \<Rightarrow> s\<lparr>isProcessingQueue := False, worker := Idle\<rparr>
      | (i, out) # rest \<Rightarrow>
          s\<lparr>REQUEST_QUEUE := rest, worker := Running i out, trace := trace s @ [Started i]\<rparr>)"

definition processQueue :: "'a scheduler \<Rightarrow> 'a scheduler" where
  "processQueue s =
     (if isProcessingQueue s \<or> length (REQUEST_QUEUE s) = 0 then s
      else loopHead (s\<lparr>isProcessingQueue := True\<rparr>))"

definition queueRequest :: "nat \<Rightarrow> 'a outcome \<Rightarrow> 'a scheduler \<Rightarrow> 'a scheduler" where
  "queueRequest i out s = processQueue (s\<lparr>REQUEST_QUEUE := REQUEST_QUEUE s @ [(i, out)]\<rparr>)"

text \<open>One resumption of the suspended worker. When the running unit's \<open>requestFn\<close>
  settles, the wrapper resolves or rejects the promise of that unit's caller (it catches
  the rejection, so the worker's own \<open>await\<close> never throws) and the worker goes on to
  await the delay. When the delay has elapsed, the loop condition is tested again. A
  unit that never settles leaves the worker suspended.\<close>

definition tick :: "'a scheduler \<Rightarrow> 'a scheduler" where
  "tick s =
     (case worker s of
        Idle \<Rightarrow> s
      | Running i (Resolves v) \<Rightarrow> s\<lparr>worker := Sleeping, trace := trace s @ [Resolved i v]\<rparr>
      | Running i (Rejects e) \<Rightarrow> s\<lparr>worker := Sleeping, trace := trace s @ [Rejected i e]\<rparr>
      | Running i Pending \<Rightarrow> s
      | Sleeping \<Rightarrow> loopHead (s\<lparr>trace := trace s @ [Delayed REQUEST_DELAY]\<rparr>))"

text \<open>A schedule interleaves calls of \<open>queueRequest\<close> from the rest of the program
  with resumptions of the worker.\<close>

datatype 'a input = Enqueue nat "'a outcome" | Tick

fun step :: "'a input \<Rightarrow> 'a scheduler \<Rightarrow> 'a scheduler" where
  "step (Enqueue i out) s = queueRequest i out s"
| "step Tick s = tick s"

definition run :: "'a input list \<Rightarrow> 'a scheduler \<Rightarrow> 'a scheduler" where
  "run evs s = fold step evs s"

definition idle :: "'a scheduler" where
  "idle = \<lparr>REQUEST_QUEUE = [], isProcessingQueue = False, worker = Idle, trace = []\<rparr>"

text \<open>The units a schedule enqueues, in order; the trace of a unit served to its end; and
  the order in which a trace starts units.\<close>

fun enqueued :: "'a input list \<Rightarrow> (nat \<times> 'a outcome) list" where
  "enqueued [] = []"
| "enqueued (Enqueue i out # evs) = (i, out) # enqueued evs"
| "enqueued (Tick # evs) = enqueued evs"

fun settlement :: "nat \<Rightarrow> 'a outcome \<Rightarrow> 'a sched_event list" where
  "settlement i (Resolves v) = [Resolved i v]"
| "settlement i (Rejects e) = [Rejected i e]"
| "settlement i Pending = []"

definition served :: "(nat \<times> 'a outcome) list \<Rightarrow> 'a sched_event list" where
  "served us = concat (map (\<lambda>(i, out). Started i # settlement i out @ [Delayed REQUEST_DELAY]) us)"

fun startOrder :: "'a sched_event list \<Rightarrow> nat list" where
  "startOrder [] = []"
| "startOrder (Started i # tr) = i # startOrder tr"
| "startOrder (ev # tr) = startOrder tr"


text \<open>The invariant of the worker and the number of resumptions it still needs.\<close>

definition sched_inv :: "'a scheduler \<Rightarrow> (nat \<times> 'a outcome) list \<Rightarrow> bool" where
  "sched_inv s us =
     (case worker s of
        Idle \<Rightarrow> REQUEST_QUEUE s = [] \<and> \<not> isProcessingQueue s \<and> trace s = served us
      | Running i out \<Rightarrow> isProcessingQueue s \<and>
          (\<exists>fin. us = fin @ (i, out) # REQUEST_QUEUE s \<and> trace s = served fin @ [Started i])
      | Sleeping \<Rightarrow> isProcessingQueue s \<and>
          (\<exists>fin i out. us = fin @ (i, out) # REQUEST_QUEUE s \<and> out \<noteq> Pending
              \<and> trace s = served fin @ Started i # settlement i out))"

definition need :: "'a scheduler \<Rightarrow> nat" where
  "need s = (case worker s of Idle \<Rightarrow> 0
             | Running i out \<Rightarrow> 2 + 2 * length (REQUEST_QUEUE s)
             | Sleeping \<Rightarrow> 1 + 2 * length (REQUEST_QUEUE s))"

subsection \<open>Batch fetch utility\<close>

text \<open>
  \<open>fetchFn\<close> is the outcome of the per-item function on an item. \<open>Batch g\<close> is one
  \<open>Promise.all\<close> over the items \<open>g\<close>, started together; \<open>BatchDelay\<close> a timer that was
  awaited. The loop need not end (a batch size below one never advances), so it is a
  partial function and \<open>None\<close> is not returning.
\<close>

definition BATCH_SIZE :: int where "BATCH_SIZE = 5"
definition BATCH_DELAY :: nat where "BATCH_DELAY = 300"

text \<open>\<open>Array.prototype.slice\<close> on integral indices: a negative index counts from the
  end.\<close>

definition slice :: "'a list \<Rightarrow> int \<Rightarrow> int \<Rightarrow> 'a list" where
  "slice xs a b =
     (let n = int (length xs);
          k = (if a < 0 then max (n + a) 0 else min a n);
          f = (if b < 0 then max (n + b) 0 else min b n)
      in take (nat (f - k)) (drop (nat k) xs))"

datatype 'i batch_event = Batch "'i list" | BatchDelay nat

text \<open>The wrapper around \<open>fetchFn\<close> that turns a rejection into \<open>null\<close>, and the
  \<open>forEach\<close> that stores the pairs that are not \<open>null\<close>.\<close>

definition settle :: "('i \<Rightarrow> error + 'r) \<Rightarrow> 'i \<Rightarrow> ('i \<times> 'r) option" where
  "settle fetchFn item = (case fetchFn item of Inr r \<Rightarrow> Some (item, r) | Inl e \<Rightarrow> None)"

definition setAll :: "('i \<rightharpoonup> 'r) \<Rightarrow> ('i \<times> 'r) option list \<Rightarrow> ('i \<rightharpoonup> 'r)" where
  "setAll res batchResults =
     fold (\<lambda>r m. case r of None \<Rightarrow> m | Some (k, v) \<Rightarrow> m(k \<mapsto> v)) batchResults res"

partial_function (option) batchLoop ::
  "'i list \<Rightarrow> ('i \<Rightarrow> error + 'r) \<Rightarrow> int \<Rightarrow> int \<Rightarrow> ('i \<rightharpoonup> 'r) \<Rightarrow> 'i batch_event list
     \<Rightarrow> (('i \<rightharpoonup> 'r) \<times> 'i batch_event list) option" where
  "batchLoop its fetchFn batchSize i res tr =
     (if i < int (length its) then
        (let batch = slice its i (i + batchSize);
             batchResults = map (settle fetchFn) batch
         in batchLoop its fetchFn batchSize (i + batchSize)
              (setAll res batchResults)
              (tr @ [Batch batch] @
                 (if i + batchSize < int (length its) then [BatchDelay BATCH_DELAY] else [])))
      else Some (res, tr))"

definition batchFetch ::
  "'i list \<Rightarrow> ('i \<Rightarrow> error + 'r) \<Rightarrow> int \<Rightarrow> (('i \<rightharpoonup> 'r) \<times> 'i batch_event list) option" where
  "batchFetch its fetchFn batchSize = batchLoop its fetchFn batchSize 0 Map.empty []"


declare batchLoop.simps [code]

text \<open>The partition the specification describes, and the trace that runs its groups
  with a delay between two of them.\<close>

fun consecutive_groups :: "nat \<Rightarrow> 'a list \<Rightarrow> 'a list list" where
  "consecutive_groups k xs =
     (if k = 0 \<or> xs = [] then [] else take k xs # consecutive_groups k (drop k xs))"

declare consecutive_groups.simps [simp del]

fun batch_trace :: "'i list list \<Rightarrow> 'i batch_event list" where
  "batch_trace [] = []"
| "batch_trace [g] = [Batch g]"
| "batch_trace (g # h # gs) = Batch g # BatchDelay BATCH_DELAY # batch_trace (h # gs)"

subsection \<open>Specification-side definitions\<close>

text \<open>The cache keys the two fetchers build, and the request \<open>fetchMoviesBasic\<close>
  sends.\<close>

definition detailsKey :: "int \<Rightarrow> string" where
  "detailsKey movieId = getCacheKey ''movie_details'' (toString movieId)"

definition discoverRequest :: "int \<Rightarrow> int option \<Rightarrow> request" where
  "discoverRequest p genreId = (''/discover/movie'', discoverParams p genreId ''popularity.desc'')"









text \<open>The movies of a page whose draws start at the \<open>k\<close>-th number of the random
  sequence, in closed form, and the value \<open>fetchMoviesBasic\<close> returns for them.\<close>

definition drawnMovies ::
  "(string \<Rightarrow> jsnum) \<Rightarrow> (int \<rightharpoonup> string) \<Rightarrow> TMDBMovie list \<Rightarrow> (nat \<Rightarrow> real) \<Rightarrow> nat \<Rightarrow> Movie list" where
  "drawnMovies getFullYear genreMap ms rnd k =
     map (\<lambda>i. transformTMDBMovie getFullYear (ms ! i) genreMap ''NR'' None (rnd (k + i)))
       [0..<length ms]"

definition drawnPage ::
  "(string \<Rightarrow> jsnum) \<Rightarrow> (int \<rightharpoonup> string) \<Rightarrow> TMDBMovieResponse \<Rightarrow> (nat \<Rightarrow> real) \<Rightarrow> nat
     \<Rightarrow> error + cache_data" where
  "drawnPage getFullYear genreMap response rnd k =
     Inr (PageData \<lparr>movies = drawnMovies getFullYear genreMap (results response) rnd k,
                    totalPages = total_pages response,
                    totalResults = total_results response\<rparr>)"

text \<open>A random source that is uniform on the \<open>N\<close> equally spaced values of the unit
  interval (\<open>N\<close> is two to the 53 in the usual engines), and the probability of an event
  over equally likely outcomes.\<close>

definition grid :: "nat \<Rightarrow> real list" where
  "grid N = map (\<lambda>k. real k / real N) [0..<N]"

definition probability :: "('a \<Rightarrow> bool) \<Rightarrow> 'a list \<Rightarrow> real" where
  "probability P xs = real (length (filter P xs)) / real (length xs)"

text \<open>The availability flags of the movies of a returned page.\<close>

definition pageAvailability :: "error + cache_data \<Rightarrow> bool list" where
  "pageAvailability r =
     (case r of Inr (PageData pr) \<Rightarrow> map available (movies pr) | _ \<Rightarrow> [])"

subsection \<open>Concrete inputs\<close>

definition usEntry :: "string list \<Rightarrow> ReleaseDateResult option" where
  "usEntry cs = Some \<lparr>iso_3166_1 = Some ''US'',
                      release_dates = Some (map (\<lambda>c. Some \<lparr>certification = Some c\<rparr>) cs)\<rparr>"

definition sampleMovie :: TMDBMovie where
  "sampleMovie =
     \<lparr>tmdb_id = 105, tmdb_title = ''Back to the Future'',
      original_title = ''Back to the Future'', tmdb_overview = ''A teenager travels in time.'',
      poster_path = Some ''/bttf.jpg'', backdrop_path = None, release_date = ''1985-07-03'',
      genre_ids = [12, 35, 878, 1], vote_average = 83 / 10, vote_count = 19000,
      popularity = 70, adult = False, original_language = ''en'', video = False\<rparr>"

definition sampleDetails :: TMDBMovieDetailsWithReleaseDates where
  "sampleDetails =
     \<lparr>tmdb_id = 105, tmdb_title = ''Back to the Future'',
      original_title = ''Back to the Future'', tmdb_overview = ''A teenager travels in time.'',
      poster_path = Some ''/bttf.jpg'', backdrop_path = None, release_date = ''1985-07-03'',
      genre_ids = [12, 35, 878, 1], vote_average = 83 / 10, vote_count = 19000,
      popularity = 70, adult = False, original_language = ''en'', video = False,
      details_tagline = ''He was never in time for his classes.'', details_runtime = Some 116,
      genres = [\<lparr>genre_id = 12, name = ''Adventure''\<rparr>, \<lparr>genre_id = 35, name = ''Comedy''\<rparr>],
      status = ''Released'', budget = 19000000, revenue = 381109762,
      imdb_id = Some ''tt0088763'',
      resp_release_dates = Some \<lparr>rd_results = Some [usEntry ['''', ''PG'']]\<rparr>\<rparr>"


text \<open>A runtime whose \<open>Date\<close> reads one date and calls every other string an invalid
  date, for concrete evaluation.\<close>

definition isoYear :: "string \<Rightarrow> jsnum" where
  "isoYear s = (if s = ''1985-07-03'' then Num 1985 else NaN)"

definition basicMovie :: Movie where
  "basicMovie = transformTMDBMovie isoYear sampleMovie Map.empty ''NR'' None (1 / 2)"


text \<open>A movie that already carries a rating, a tagline, a runtime and genres.\<close>

definition ratedMovie :: Movie where
  "ratedMovie =
     \<lparr>movie_id = 105, title = ''Back to the Future'', year = Num 1985,
      genre = [''Adventure'', ''Comedy'', ''Sci-Fi''], tagline = ''Great Scott!'', rating = ''PG'',
      runtime = ''116 min'', available = True, poster = ''/bttf.jpg'', backdrop = None,
      tmdbRating = Some (83 / 10), overview = Some ''A teenager travels in time.''\<rparr>"

definition emptyPage :: cache_data where
  "emptyPage = PageData \<lparr>movies = [], totalPages = 0, totalResults = 0\<rparr>"

definition emptyWorld :: world where
  "emptyWorld =
     \<lparr>memoryCache = Map.empty,
      localStorage = Some \<lparr>items = Map.empty, quotaExceeded = False\<rparr>,
      now = 1000, randoms = (\<lambda>n. 1 / 2), drawn = 0, fetched = [], queued = []\<rparr>"


text \<open>A world whose entries for page 1 are older than 24 hours in both tiers, and one
  whose entries are fresh, next to a key of another application.\<close>

definition staleWorld :: world where
  "staleWorld =
     \<lparr>memoryCache = [''tmdb_cache_discover_page_1_all'' \<mapsto> \<lparr>data = emptyPage, timestamp = 0\<rparr>],
      localStorage = Some \<lparr>items = [''tmdb_cache_discover_page_1_all'' \<mapsto>
                                       Json \<lparr>data = emptyPage, timestamp = 5\<rparr>],
                            quotaExceeded = False\<rparr>,
      now = 86400006, randoms = (\<lambda>n. 0), drawn = 0, fetched = [], queued = []\<rparr>"

definition warmWorld :: world where
  "warmWorld =
     \<lparr>memoryCache = [''tmdb_cache_discover_page_1_all'' \<mapsto> \<lparr>data = emptyPage, timestamp = 900\<rparr>],
      localStorage = Some
        \<lparr>items = [''tmdb_cache_discover_page_1_all'' \<mapsto> Json \<lparr>data = emptyPage, timestamp = 900\<rparr>,
                  ''cart'' \<mapsto> Unparseable],
         quotaExceeded = False\<rparr>,
      now = 1000, randoms = (\<lambda>n. 1 / 2), drawn = 0, fetched = [], queued = []\<rparr>"


text \<open>Servers: one whose page is empty, one with one movie, one that answers a details
  request in full, and one whose answer carries no release dates and no tagline,
  runtime or genres.\<close>

definition emptyPageServer :: "request \<Rightarrow> nat \<Rightarrow> error + TMDBMovieResponse" where
  "emptyPageServer rq n = Inr \<lparr>page = 1, results = [], total_pages = 0, total_results = 0\<rparr>"

definition onePageServer :: "request \<Rightarrow> nat \<Rightarrow> error + TMDBMovieResponse" where
  "onePageServer rq n = Inr \<lparr>page = 1, results = [sampleMovie], total_pages = 1, total_results = 1\<rparr>"

definition detailsServer :: "request \<Rightarrow> nat \<Rightarrow> error + TMDBMovieDetailsWithReleaseDates" where
  "detailsServer rq n = Inr sampleDetails"

definition bareServer :: "request \<Rightarrow> nat \<Rightarrow> error + TMDBMovieDetailsWithReleaseDates" where
  "bareServer rq n =
     Inr (sampleDetails\<lparr>details_tagline := [], details_runtime := None, genres := [],
                         resp_release_dates := None\<rparr>)"

text \<open>An empty world whose random source returns one half and then one twentieth.\<close>

definition flipWorld :: world where
  "flipWorld = emptyWorld\<lparr>randoms := (\<lambda>n. if n = 0 then 1 / 2 else 1 / 20)\<rparr>"

section \<open>Verified properties\<close>

subsection \<open>Request scheduler\<close>

lemma served_append: "served (xs @ ys) = served xs @ served ys"
  by (simp add: served_def)

lemma served_single: "served [(i, out)] = Started i # settlement i out @ [Delayed REQUEST_DELAY]"
  by (simp add: served_def)

lemma inv_idle: "sched_inv idle []"
  by (simp add: sched_inv_def idle_def served_def)

lemma inv_queueRequest:
  assumes "sched_inv s us"
  shows "sched_inv (queueRequest i out s) (us @ [(i, out)])"
proof (cases "worker s")
  case Idle
  with assms show ?thesis
    by (simp add: sched_inv_def queueRequest_def processQueue_def loopHead_def)
next
  case (Running j o')
  with assms show ?thesis
    by (auto simp add: sched_inv_def queueRequest_def processQueue_def)
next
  case Sleeping
  with assms show ?thesis
    by (auto simp add: sched_inv_def queueRequest_def processQueue_def)
qed

lemma inv_tick:
  assumes "sched_inv s us"
  shows "sched_inv (tick s) us"
proof (cases "worker s")
  case Idle
  with assms show ?thesis by (simp add: tick_def)
next
  case (Running j o')
  with assms show ?thesis
    by (cases o') (auto simp add: sched_inv_def tick_def)
next
  case Sleeping
  with assms obtain fin i out where
    *: "isProcessingQueue s" "us = fin @ (i, out) # REQUEST_QUEUE s" "out \<noteq> Pending"
       "trace s = served fin @ Started i # settlement i out"
    by (auto simp add: sched_inv_def)
  show ?thesis
  proof (cases "REQUEST_QUEUE s")
    case Nil
    with Sleeping * show ?thesis
      by (simp add: sched_inv_def tick_def loopHead_def served_append served_single)
  next
    case (Cons u rest)
    obtain j o' where u: "u = (j, o')" by (cases u)
    have "us = (fin @ [(i, out)]) @ (j, o') # rest" using * Cons u by simp
    moreover have "trace s @ [Delayed REQUEST_DELAY, Started j] = served (fin @ [(i, out)]) @ [Started j]"
      using * by (simp add: served_append served_single)
    ultimately show ?thesis
      using Sleeping * Cons u
      by (simp add: sched_inv_def tick_def loopHead_def)
  qed
qed

lemma inv_run: "sched_inv s us \<Longrightarrow> sched_inv (run evs s) (us @ enqueued evs)"
proof (induction evs arbitrary: s us)
  case Nil
  then show ?case by (simp add: run_def)
next
  case (Cons ev evs)
  show ?case
  proof (cases ev)
    case (Enqueue i out)
    have "sched_inv (run evs (queueRequest i out s)) ((us @ [(i, out)]) @ enqueued evs)"
      by (rule Cons.IH) (rule inv_queueRequest [OF Cons.prems])
    with Enqueue show ?thesis by (simp add: run_def)
  next
    case Tick
    have "sched_inv (run evs (tick s)) (us @ enqueued evs)"
      by (rule Cons.IH) (rule inv_tick [OF Cons.prems])
    with Tick show ?thesis by (simp add: run_def)
  qed
qed

lemma need_bound: "sched_inv s us \<Longrightarrow> need s \<le> 2 * length us"
  by (cases "worker s") (auto simp add: sched_inv_def need_def)

lemma need_tick:
  assumes "sched_inv s us" and "\<forall>u \<in> set us. snd u \<noteq> Pending"
  shows "need (tick s) = need s - 1"
proof (cases "worker s")
  case Idle
  then show ?thesis by (simp add: tick_def need_def)
next
  case (Running j o')
  with assms have "o' \<noteq> Pending" by (auto simp add: sched_inv_def)
  with Running show ?thesis by (cases o') (simp_all add: tick_def need_def)
next
  case Sleeping
  then show ?thesis
    by (cases "REQUEST_QUEUE s") (auto simp add: tick_def need_def loopHead_def)
qed

lemma need_ticks:
  assumes "sched_inv s us" and "\<forall>u \<in> set us. snd u \<noteq> Pending"
  shows "sched_inv ((tick ^^ n) s) us \<and> need ((tick ^^ n) s) = need s - n"
proof (induction n)
  case 0
  with assms show ?case by simp
next
  case (Suc n)
  then show ?case using need_tick [of "(tick ^^ n) s" us] inv_tick [of "(tick ^^ n) s" us] assms(2)
    by simp
qed

lemma need_0: "sched_inv s us \<Longrightarrow> need s = 0 \<Longrightarrow>
   worker s = Idle \<and> REQUEST_QUEUE s = [] \<and> \<not> isProcessingQueue s \<and> trace s = served us"
  by (cases "worker s") (auto simp add: sched_inv_def need_def)

lemma startOrder_append: "startOrder (xs @ ys) = startOrder xs @ startOrder ys"
  by (induction xs rule: startOrder.induct) auto

lemma startOrder_served: "startOrder (served us) = map fst us"
proof (induction us)
  case Nil
  show ?case by (simp add: served_def)
next
  case (Cons u us)
  obtain i out where u: "u = (i, out)" by (cases u)
  have "served (u # us) = served [u] @ served us"
    using served_append [of "[u]" us] by simp
  then show ?case using Cons u
    by (cases out) (simp_all add: startOrder_append served_single)
qed

text \<open>
  Claim C6. Whatever the interleaving of \<open>queueRequest\<close> calls and resumptions of the
  worker, once the worker has been resumed often enough and every enqueued
  \<open>requestFn\<close> settles, the trace is exactly: each unit started in the order it was
  enqueued, then the settlement of that unit's own promise with that unit's own outcome
  (a rejection reaches no other unit), then the delay of \<open>REQUEST_DELAY\<close>. The queue is
  empty, \<open>isProcessingQueue\<close> is reset and the worker is idle, so a rejecting unit stops
  nothing behind it.
\<close>

theorem queue_fifo_and_failure_isolation:
  assumes settle: "\<forall>u \<in> set (enqueued evs). snd u \<noteq> Pending"
    and enough: "2 * length (enqueued evs) \<le> n"
  shows "trace ((tick ^^ n) (run evs idle)) = served (enqueued evs)
       \<and> startOrder (trace ((tick ^^ n) (run evs idle))) = map fst (enqueued evs)
       \<and> REQUEST_QUEUE ((tick ^^ n) (run evs idle)) = []
       \<and> \<not> isProcessingQueue ((tick ^^ n) (run evs idle))
       \<and> worker ((tick ^^ n) (run evs idle)) = Idle"
proof -
  let ?s = "run evs idle"
  have inv: "sched_inv ?s (enqueued evs)"
    using inv_run [OF inv_idle, of evs] by simp
  have "need ?s \<le> n" using need_bound [OF inv] enough by simp
  with need_ticks [OF inv settle, of n]
  have "sched_inv ((tick ^^ n) ?s) (enqueued evs)" "need ((tick ^^ n) ?s) = 0" by simp_all
  from need_0 [OF this] show ?thesis by (simp add: startOrder_served)
qed


theorem queue_fifo_and_failure_isolation_witness:
  "enqueued [Enqueue 0 (Resolves (1::int)), Tick, Enqueue 1 (Rejects FetchFailed),
             Enqueue 2 (Resolves 3)]
       = [(0, Resolves 1), (1, Rejects FetchFailed), (2, Resolves 3)]
   \<and> trace ((tick ^^ 6) (run [Enqueue 0 (Resolves (1::int)), Tick, Enqueue 1 (Rejects FetchFailed),
                               Enqueue 2 (Resolves 3)] idle))
       = [Started 0, Resolved 0 1, Delayed 100,
          Started 1, Rejected 1 FetchFailed, Delayed 100,
          Started 2, Resolved 2 3, Delayed 100]
   \<and> \<not> isProcessingQueue ((tick ^^ 6) (run [Enqueue 0 (Resolves (1::int)), Tick,
                               Enqueue 1 (Rejects FetchFailed), Enqueue 2 (Resolves 3)] idle))"
  using queue_fifo_and_failure_isolation
          [of "[Enqueue 0 (Resolves (1::int)), Tick, Enqueue 1 (Rejects FetchFailed),
                Enqueue 2 (Resolves 3)]" 6]
  by (simp add: served_def REQUEST_DELAY_def)

subsection \<open>Batch fetch utility\<close>

lemma slice_take_drop:
  "0 \<le> i \<Longrightarrow> 0 \<le> b \<Longrightarrow> i < int (length xs) \<Longrightarrow> slice xs i (i + b) = take (nat b) (drop (nat i) xs)"
  by (auto simp: slice_def Let_def min_def nat_diff_distrib nat_add_distrib)

lemma setAll_Nil: "setAll res [] = res"
  by (simp add: setAll_def)

lemma setAll_append: "setAll res (xs @ ys) = setAll (setAll res xs) ys"
  by (simp add: setAll_def)

lemma setAll_settle:
  "setAll res (map (settle f) xs) k =
     (if k \<in> set xs then (case f k of Inr r \<Rightarrow> Some r | Inl e \<Rightarrow> res k) else res k)"
proof (induction xs arbitrary: res)
  case Nil
  show ?case by (simp add: setAll_def)
next
  case (Cons x xs)
  have step: "setAll res (map (settle f) (x # xs)) =
      setAll (case f x of Inr r \<Rightarrow> res(x \<mapsto> r) | Inl e \<Rightarrow> res) (map (settle f) xs)"
    by (simp add: setAll_def settle_def split: sum.splits)
  show ?case
    unfolding step Cons.IH
    by (auto split: sum.splits)
qed

lemma groups_concat: "0 < k \<Longrightarrow> concat (consecutive_groups k xs) = xs"
proof (induction k xs rule: consecutive_groups.induct)
  case (1 k xs)
  then show ?case
    by (subst consecutive_groups.simps) auto
qed

lemma groups_length:
  "g \<in> set (consecutive_groups k xs) \<Longrightarrow> g \<noteq> [] \<and> length g \<le> k"
proof (induction k xs rule: consecutive_groups.induct)
  case (1 k xs)
  show ?case
  proof (cases "k = 0 \<or> xs = []")
    case True
    with "1.prems" show ?thesis
      by (simp add: consecutive_groups.simps [of k xs])
  next
    case False
    with "1.prems" have "g = take k xs \<or> g \<in> set (consecutive_groups k (drop k xs))"
      by (simp add: consecutive_groups.simps [of k xs])
    then show ?thesis
    proof
      assume "g = take k xs"
      with False show ?thesis by simp
    next
      assume "g \<in> set (consecutive_groups k (drop k xs))"
      with False "1.IH" show ?thesis by blast
    qed
  qed
qed

lemma batch_trace_Cons:
  "batch_trace (g # gs) = Batch g # (if gs = [] then [] else BatchDelay BATCH_DELAY # batch_trace gs)"
  by (cases gs) auto

lemma groups_Nil_iff: "0 < k \<Longrightarrow> consecutive_groups k xs = [] \<longleftrightarrow> xs = []"
  by (subst consecutive_groups.simps) auto

lemma batchLoop_returns:
  assumes bs: "1 \<le> batchSize"
  shows "batchLoop its f batchSize (int i) res tr =
           Some (setAll res (map (settle f) (drop i its)),
                 tr @ batch_trace (consecutive_groups (nat batchSize) (drop i its)))"
proof (induction "length its - i" arbitrary: i res tr rule: less_induct)
  case less
  show ?case
  proof (cases "i < length its")
    case False
    then show ?thesis
      by (subst batchLoop.simps) (simp add: setAll_Nil consecutive_groups.simps)
  next
    case True
    define b where "b = nat batchSize"
    have b: "0 < b" "int b = batchSize" using bs by (auto simp: b_def)
    have sl: "slice its (int i) (int i + batchSize) = take b (drop i its)"
      using slice_take_drop [of "int i" batchSize its] True bs by (simp add: b_def)
    have nxt: "int i + batchSize = int (i + b)" using b by simp
    have dd: "drop b (drop i its) = drop (i + b) its" by (simp add: add.commute)
    have ne: "drop i its \<noteq> []" using True by simp
    have gr: "consecutive_groups b (drop i its) =
               take b (drop i its) # consecutive_groups b (drop (i + b) its)"
      using ne b by (subst consecutive_groups.simps) (simp only: dd, simp)
    have cond: "(int i + batchSize < int (length its)) \<longleftrightarrow> consecutive_groups b (drop (i + b) its) \<noteq> []"
      using b by (auto simp add: groups_Nil_iff nxt simp del: of_nat_add)
    have IH: "batchLoop its f batchSize (int (i + b)) res' tr' =
           Some (setAll res' (map (settle f) (drop (i + b) its)),
                 tr' @ batch_trace (consecutive_groups (nat batchSize) (drop (i + b) its)))" for res' tr'
      using less [of "i + b" res' tr'] True b by simp
    have split: "drop i its = take b (drop i its) @ drop (i + b) its"
      by (metis append_take_drop_id dd)
    have res_eq: "setAll (setAll res (map (settle f) (take b (drop i its)))) (map (settle f) (drop (i + b) its))
                = setAll res (map (settle f) (drop i its))"
      by (metis split setAll_append map_append)
    have unfold: "batchLoop its f batchSize (int i) res tr =
        batchLoop its f batchSize (int (i + b))
          (setAll res (map (settle f) (take b (drop i its))))
          (tr @ [Batch (take b (drop i its))] @
             (if consecutive_groups b (drop (i + b) its) \<noteq> [] then [BatchDelay BATCH_DELAY] else []))"
      by (subst batchLoop.simps) (simp only: True of_nat_less_iff if_True Let_def sl cond, simp only: nxt)
    have nb: "nat batchSize = b" by (simp add: b_def)
    have tr_eq: "[Batch (take b (drop i its))] @
             (if consecutive_groups b (drop (i + b) its) \<noteq> [] then [BatchDelay BATCH_DELAY] else [])
             @ batch_trace (consecutive_groups b (drop (i + b) its))
           = batch_trace (consecutive_groups b (drop i its))"
      by (simp add: gr batch_trace_Cons)
    show ?thesis
      unfolding unfold IH res_eq nb
      using tr_eq by simp
  qed
qed

lemma groups_12_5:
  assumes "length xs = 12"
  shows "map length (consecutive_groups 5 xs) = [5, 5, 2]"
proof -
  have a: "xs \<noteq> []" "drop 5 xs \<noteq> []" "drop 10 xs \<noteq> []" "drop 15 xs = []"
    using assms by auto
  have "consecutive_groups 5 xs =
          [take 5 xs, take 5 (drop 5 xs), take 5 (drop 10 xs)]"
    using a
    by (simp add: consecutive_groups.simps [of 5 xs] consecutive_groups.simps [of 5 "drop 5 xs"]
          consecutive_groups.simps [of 5 "drop 10 xs"] consecutive_groups.simps [of 5 "[]"])
  then show ?thesis using assms by simp
qed

text \<open>With a batch size of zero the index never advances: on a list that is not
  empty the loop does not return.\<close>

lemma batchLoop_stuck:
  assumes "batchLoop its f batchSize i res tr = Some y"
  shows "batchSize = 0 \<longrightarrow> \<not> i < int (length its)"
proof (rule batchLoop.raw_induct
         [where P = "\<lambda>its f batchSize i res tr y. batchSize = 0 \<longrightarrow> \<not> i < int (length its)",
          OF _ assms])
  fix loop :: "'a list \<Rightarrow> ('a \<Rightarrow> error + 'b) \<Rightarrow> int \<Rightarrow> int \<Rightarrow> ('a \<rightharpoonup> 'b) \<Rightarrow> 'a batch_event list
                 \<Rightarrow> (('a \<rightharpoonup> 'b) \<times> 'a batch_event list) option"
  fix its f batchSize i res tr y
  assume IH: "\<And>its f batchSize i res tr y. loop its f batchSize i res tr = Some y
                \<Longrightarrow> batchSize = 0 \<longrightarrow> \<not> i < int (length its)"
    and body: "(if i < int (length its)
      then let batch = slice its i (i + batchSize);
               batchResults = map (settle f) batch
           in loop its f batchSize (i + batchSize)
               (setAll res batchResults)
               (tr @ [Batch batch] @
                (if i + batchSize < int (length its) then [BatchDelay BATCH_DELAY] else []))
      else Some (res, tr)) = Some y"
  show "batchSize = 0 \<longrightarrow> \<not> i < int (length its)"
  proof (intro impI notI)
    assume z: "batchSize = 0" and lt: "i < int (length its)"
    with body obtain res' tr' where "loop its f 0 i res' tr' = Some y"
      by (auto simp add: Let_def)
    from IH [OF this] lt show False by simp
  qed
qed

lemma batchFetch_zero_never_returns: "its \<noteq> [] \<Longrightarrow> batchFetch its f 0 = None"
proof (rule ccontr)
  assume ne: "its \<noteq> []" and "batchFetch its f 0 \<noteq> None"
  then obtain y where "batchLoop its f 0 0 Map.empty [] = Some y"
    by (auto simp add: batchFetch_def)
  from batchLoop_stuck [OF this] ne show False by simp
qed

text \<open>
  Claim C4. For a batch size of at least one, \<open>batchFetch\<close> returns. Its trace is one
  \<open>Promise.all\<close> per consecutive group of at most \<open>batchSize\<close> items, the groups
  together being the input in order (sizes 5, 5 and 2 for twelve items and a batch size
  of five), with the inter-batch delay between two groups and none after the last. The
  returned map has an entry exactly for the items whose fetch function succeeded: an item
  whose fetch function throws has none and costs no other item its entry.
\<close>

theorem batchFetch_groups_and_isolation:
  assumes "1 \<le> batchSize"
  shows "\<exists>res tr. batchFetch its fetchFn batchSize = Some (res, tr)
           \<and> tr = batch_trace (consecutive_groups (nat batchSize) its)
           \<and> concat (consecutive_groups (nat batchSize) its) = its
           \<and> (\<forall>g \<in> set (consecutive_groups (nat batchSize) its). g \<noteq> [] \<and> int (length g) \<le> batchSize)
           \<and> (length its = 12 \<and> batchSize = 5 \<longrightarrow>
                map length (consecutive_groups (nat batchSize) its) = [5, 5, 2])
           \<and> (\<forall>k. res k = (if k \<in> set its
                            then (case fetchFn k of Inr r \<Rightarrow> Some r | Inl e \<Rightarrow> None)
                            else None))"
proof -
  have "batchFetch its fetchFn batchSize =
          Some (setAll Map.empty (map (settle fetchFn) its),
                batch_trace (consecutive_groups (nat batchSize) its))"
    using batchLoop_returns [OF assms, of its fetchFn 0 Map.empty "[]"]
    by (simp add: batchFetch_def)
  moreover have "concat (consecutive_groups (nat batchSize) its) = its"
    using assms by (simp add: groups_concat)
  moreover have "\<forall>g \<in> set (consecutive_groups (nat batchSize) its). g \<noteq> [] \<and> int (length g) \<le> batchSize"
    using groups_length [of _ "nat batchSize" its] assms by fastforce
  moreover have "length its = 12 \<and> batchSize = 5 \<longrightarrow>
                map length (consecutive_groups (nat batchSize) its) = [5, 5, 2]"
    using groups_12_5 [of its] by auto
  ultimately show ?thesis
    by (simp add: setAll_settle)
qed


theorem batchFetch_groups_and_isolation_witness:
  "(1::int) \<le> 5
   \<and> (\<exists>res tr.
         batchFetch [1, 2, 3, 4, 5, 6, 7, 8, 9, 10, 11, 12 :: int]
           (\<lambda>i. if i = 7 then Inl FetchFailed else Inr (2 * i)) 5 = Some (res, tr)
         \<and> tr = [Batch [1, 2, 3, 4, 5], BatchDelay 300, Batch [6, 7, 8, 9, 10], BatchDelay 300,
                 Batch [11, 12]]
         \<and> res 7 = None
         \<and> map res [1, 2, 3, 4, 5, 6, 8, 9, 10, 11, 12]
             = map Some [2, 4, 6, 8, 10, 12, 16, 18, 20, 22, 24])"
proof -
  have g: "consecutive_groups (nat 5) [1, 2, 3, 4, 5, 6, 7, 8, 9, 10, 11, 12 :: int]
             = [[1, 2, 3, 4, 5], [6, 7, 8, 9, 10], [11, 12]]"
    by (simp add: consecutive_groups.simps)
  show ?thesis
    using batchFetch_groups_and_isolation
            [of 5 "[1, 2, 3, 4, 5, 6, 7, 8, 9, 10, 11, 12 :: int]"
                "\<lambda>i. if i = 7 then Inl FetchFailed else Inr (2 * i)"]
    unfolding g
    by (auto simp add: BATCH_DELAY_def)
qed

subsection \<open>Cache store\<close>

lemma fromStorage_unavailable:
  "localStorage w = None \<Longrightarrow> fromStorage key w = (None, w)"
  by (simp add: fromStorage_def readStorage_def getItem_def)

lemma fromStorage_item:
  "localStorage w = Some st \<Longrightarrow> fromStorage key w =
     (case items st key of
        None \<Rightarrow> (None, w)
      | Some EmptyString \<Rightarrow> (None, w)
      | Some Unparseable \<Rightarrow> (None, w)
      | Some NoTimestamp \<Rightarrow> (None, w\<lparr>localStorage := Some (st\<lparr>items := (items st)(key := None)\<rparr>)\<rparr>)
      | Some (Json entry) \<Rightarrow>
          if now w - timestamp entry < CACHE_TTL
          then (Some (data entry), w\<lparr>memoryCache := (memoryCache w)(key \<mapsto> entry)\<rparr>)
          else (None, w\<lparr>localStorage := Some (st\<lparr>items := (items st)(key := None)\<rparr>)\<rparr>))"
  by (simp add: fromStorage_def readStorage_def getItem_def removeItem_def
           split: option.splits stored.splits)

lemma getFromCache_memory_miss:
  "(\<And>e. memoryCache w key = Some e \<Longrightarrow> CACHE_TTL \<le> now w - timestamp e)
     \<Longrightarrow> getFromCache key w = fromStorage key w"
  by (auto simp add: getFromCache_def split: option.splits)

lemma getFromCache_hit:
  "memoryCache w key = Some e \<Longrightarrow> now w - timestamp e < CACHE_TTL
     \<Longrightarrow> getFromCache key w = (Some (data e), w)"
  by (simp add: getFromCache_def)

lemma fromStorage_Some:
  assumes "fromStorage key w = (Some d, w1)"
  shows "\<exists>e. w1 = w\<lparr>memoryCache := (memoryCache w)(key \<mapsto> e)\<rparr> \<and> data e = d
            \<and> now w - timestamp e < CACHE_TTL"
proof (cases "localStorage w")
  case None
  with assms show ?thesis by (simp add: fromStorage_unavailable)
next
  case (Some st)
  with assms show ?thesis
    by (auto simp add: fromStorage_item [OF Some] split: option.splits stored.splits if_splits)
qed

lemma getFromCache_Some:
  assumes "getFromCache key w = (Some d, w1)"
  shows "\<exists>e. memoryCache w1 key = Some e \<and> data e = d \<and> now w1 - timestamp e < CACHE_TTL"
    and "now w1 = now w" and "fetched w1 = fetched w" and "queued w1 = queued w"
proof -
  have "(\<exists>e. memoryCache w1 key = Some e \<and> data e = d \<and> now w1 - timestamp e < CACHE_TTL)
        \<and> now w1 = now w \<and> fetched w1 = fetched w \<and> queued w1 = queued w"
  proof (cases "\<exists>e. memoryCache w key = Some e \<and> now w - timestamp e < CACHE_TTL")
    case True
    then obtain e where e: "memoryCache w key = Some e" "now w - timestamp e < CACHE_TTL" by blast
    with assms getFromCache_hit [OF e] show ?thesis by simp
  next
    case False
    then have "getFromCache key w = fromStorage key w"
      by (intro getFromCache_memory_miss) force
    with assms fromStorage_Some [of key w d w1] show ?thesis by auto
  qed
  then show "\<exists>e. memoryCache w1 key = Some e \<and> data e = d \<and> now w1 - timestamp e < CACHE_TTL"
    and "now w1 = now w" and "fetched w1 = fetched w" and "queued w1 = queued w"
    by blast+
qed

lemma fromStorage_frame:
  "fetched (snd (fromStorage key w)) = fetched w
   \<and> queued (snd (fromStorage key w)) = queued w
   \<and> now (snd (fromStorage key w)) = now w"
proof (cases "localStorage w")
  case None
  then show ?thesis by (simp add: fromStorage_unavailable)
next
  case (Some st)
  then show ?thesis
    by (simp add: fromStorage_item [OF Some] split: option.splits stored.splits)
qed

lemma getFromCache_frame:
  "fetched (snd (getFromCache key w)) = fetched w
   \<and> queued (snd (getFromCache key w)) = queued w
   \<and> now (snd (getFromCache key w)) = now w"
  by (simp add: getFromCache_def fromStorage_frame split: option.splits)

lemma saveToCache_fields:
  "fetched (saveToCache key d w) = fetched w"
  "queued (saveToCache key d w) = queued w"
  "now (saveToCache key d w) = now w"
  "memoryCache (saveToCache key d w) = (memoryCache w)(key \<mapsto> \<lparr>data = d, timestamp = now w\<rparr>)"
  by (simp_all add: saveToCache_def setItem_def Let_def split: option.splits)

lemma toString_1: "toString 1 = ''1''"
  by (simp add: toString_def toStringNat.simps digit_def)

lemma toString_105: "toString 105 = ''105''"
  by (simp add: toString_def toStringNat.simps digit_def)

text \<open>
  Claim C5. An entry whose timestamp lies 24 hours or more (so in particular more than
  24 hours) before \<open>now\<close> is treated as absent in either tier: when the in-memory entry
  for the key, if any, and the persisted entry, if any, are that old, \<open>getFromCache\<close>
  returns \<open>null\<close>. On such a read an expired persisted entry is removed from the
  persistent store and nothing else changes. When the storage is unavailable, or the
  persisted payload does not parse, the failure is swallowed: the result is a miss and
  the world is unchanged.
\<close>

theorem getFromCache_expired_is_absent:
  "((\<forall>e. memoryCache w key = Some e \<longrightarrow> CACHE_TTL \<le> now w - timestamp e)
      \<and> (\<forall>st e. localStorage w = Some st \<and> items st key = Some (Json e)
              \<longrightarrow> CACHE_TTL \<le> now w - timestamp e)
      \<longrightarrow> fst (getFromCache key w) = None)
   \<and> ((\<forall>e. memoryCache w key = Some e \<longrightarrow> CACHE_TTL \<le> now w - timestamp e)
      \<and> localStorage w = Some st \<and> items st key = Some (Json e')
      \<and> CACHE_TTL \<le> now w - timestamp e'
      \<longrightarrow> getFromCache key w
            = (None, w\<lparr>localStorage := Some (st\<lparr>items := (items st)(key := None)\<rparr>)\<rparr>))
   \<and> ((\<forall>e. memoryCache w key = Some e \<longrightarrow> CACHE_TTL \<le> now w - timestamp e)
      \<and> (localStorage w = None
           \<or> (\<exists>st. localStorage w = Some st \<and> items st key = Some Unparseable))
      \<longrightarrow> getFromCache key w = (None, w))"
proof (intro conjI impI)
  assume a: "(\<forall>e. memoryCache w key = Some e \<longrightarrow> CACHE_TTL \<le> now w - timestamp e)
      \<and> (\<forall>st e. localStorage w = Some st \<and> items st key = Some (Json e)
              \<longrightarrow> CACHE_TTL \<le> now w - timestamp e)"
  then have m: "getFromCache key w = fromStorage key w"
    by (intro getFromCache_memory_miss) blast
  show "fst (getFromCache key w) = None"
  proof (cases "localStorage w")
    case None
    then show ?thesis by (simp add: m fromStorage_unavailable)
  next
    case (Some st)
    with a have "\<forall>e. items st key = Some (Json e) \<longrightarrow> \<not> now w - timestamp e < CACHE_TTL"
      by fastforce
    then show ?thesis
      by (simp add: m fromStorage_item [OF Some] split: option.splits stored.splits)
  qed
next
  assume a: "(\<forall>e. memoryCache w key = Some e \<longrightarrow> CACHE_TTL \<le> now w - timestamp e)
      \<and> localStorage w = Some st \<and> items st key = Some (Json e')
      \<and> CACHE_TTL \<le> now w - timestamp e'"
  then have m: "getFromCache key w = fromStorage key w"
    by (intro getFromCache_memory_miss) blast
  from a show "getFromCache key w
            = (None, w\<lparr>localStorage := Some (st\<lparr>items := (items st)(key := None)\<rparr>)\<rparr>)"
    by (simp add: m fromStorage_item [of w st])
next
  assume a: "(\<forall>e. memoryCache w key = Some e \<longrightarrow> CACHE_TTL \<le> now w - timestamp e)
      \<and> (localStorage w = None
           \<or> (\<exists>st. localStorage w = Some st \<and> items st key = Some Unparseable))"
  then have m: "getFromCache key w = fromStorage key w"
    by (intro getFromCache_memory_miss) blast
  from a show "getFromCache key w = (None, w)"
    by (auto simp add: m fromStorage_unavailable fromStorage_item)
qed

theorem getFromCache_expired_is_absent_witness:
  "fst (getFromCache ''tmdb_cache_discover_page_1_all'' staleWorld) = None
   \<and> localStorage (snd (getFromCache ''tmdb_cache_discover_page_1_all'' staleWorld))
       = Some \<lparr>items = Map.empty, quotaExceeded = False\<rparr>
   \<and> getFromCache ''tmdb_cache_discover_page_1_all'' (staleWorld\<lparr>localStorage := None\<rparr>)
       = (None, staleWorld\<lparr>localStorage := None\<rparr>)"
  using getFromCache_expired_is_absent
          [of staleWorld "''tmdb_cache_discover_page_1_all''"
              "\<lparr>items = [''tmdb_cache_discover_page_1_all'' \<mapsto> Json \<lparr>data = emptyPage, timestamp = 5\<rparr>],
                quotaExceeded = False\<rparr>"
              "\<lparr>data = emptyPage, timestamp = 5\<rparr>"]
        getFromCache_expired_is_absent
          [of "staleWorld\<lparr>localStorage := None\<rparr>" "''tmdb_cache_discover_page_1_all''"]
  by (simp add: staleWorld_def CACHE_TTL_def)

lemma startsWith_getCacheKey: "startsWith (getCacheKey t i) CACHE_PREFIX"
  by (simp add: startsWith_def getCacheKey_def)

lemma clearCache_fields:
  "memoryCache (clearCache w) = Map.empty"
  "now (clearCache w) = now w"
  "fetched (clearCache w) = fetched w"
  "queued (clearCache w) = queued w"
  "drawn (clearCache w) = drawn w"
  "randoms (clearCache w) = randoms w"
  by (simp_all add: clearCache_def Let_def split: option.splits)

lemma clearCache_storage:
  "localStorage (clearCache w) =
     map_option (\<lambda>st. st\<lparr>items := (\<lambda>k. if startsWith k CACHE_PREFIX then None else items st k)\<rparr>)
       (localStorage w)"
  by (simp add: clearCache_def Let_def split: option.splits)

lemma getFromCache_after_clearCache:
  assumes "startsWith key CACHE_PREFIX"
  shows "getFromCache key (clearCache w) = (None, clearCache w)"
proof -
  have m: "getFromCache key (clearCache w) = fromStorage key (clearCache w)"
    by (rule getFromCache_memory_miss) (simp add: clearCache_fields)
  show ?thesis
  proof (cases "localStorage w")
    case None
    then show ?thesis
      by (simp add: m fromStorage_unavailable clearCache_storage)
  next
    case (Some st)
    then show ?thesis
      using assms
      by (simp add: m clearCache_storage
            fromStorage_item [of _ "st\<lparr>items := (\<lambda>k. if startsWith k CACHE_PREFIX then None else items st k)\<rparr>"])
  qed
qed

lemma transformAll_fields:
  "fetched (snd (transformAll gfy gm ms w)) = fetched w
   \<and> queued (snd (transformAll gfy gm ms w)) = queued w
   \<and> now (snd (transformAll gfy gm ms w)) = now w
   \<and> memoryCache (snd (transformAll gfy gm ms w)) = memoryCache w
   \<and> localStorage (snd (transformAll gfy gm ms w)) = localStorage w"
  by (induction ms arbitrary: w) (simp_all add: Let_def)

lemma fetchMoviesBasic_miss:
  assumes "getFromCache (discoverKey p g) w = (None, w1)"
  shows "fetched (snd (fetchMoviesBasic server gfy p g gm w))
           = fetched w1 @ [discoverRequest p g]"
  using assms
  by (simp add: fetchMoviesBasic_def discoverMovies_def fetchTMDB_def Let_def
        discoverRequest_def
        saveToCache_fields transformAll_fields split: sum.splits)

lemma discoverKey_1: "discoverKey 1 None = ''tmdb_cache_discover_page_1_all''"
  by (simp add: discoverKey_def getCacheKey_def CACHE_PREFIX_def toString_1)

text \<open>
  Claim C8. \<open>clearCache\<close> empties the in-memory map. In the persistent store it
  removes exactly the keys that start with \<open>tmdb_cache_\<close>: every key of the store reads
  afterwards as before unless it carries the prefix, and then it reads as absent (with
  no storage there is nothing to remove). A call of \<open>fetchMoviesBasic\<close> right after the
  clear sends a request, whatever the cache held before.
\<close>

theorem clearCache_frame_and_refetch:
  "memoryCache (clearCache w) = Map.empty
   \<and> (localStorage w = None \<longrightarrow> localStorage (clearCache w) = None)
   \<and> (\<forall>st. localStorage w = Some st \<longrightarrow>
         (\<exists>st'. localStorage (clearCache w) = Some st'
            \<and> (\<forall>k. items st' k = (if startsWith k CACHE_PREFIX then None else items st k))))
   \<and> fetched (snd (fetchMoviesBasic server getFullYear p genreId genreMap (clearCache w)))
       = fetched w @ [discoverRequest p genreId]"
proof -
  have "getFromCache (discoverKey p genreId) (clearCache w) = (None, clearCache w)"
    by (rule getFromCache_after_clearCache) (simp add: discoverKey_def startsWith_getCacheKey)
  then have "fetched (snd (fetchMoviesBasic server getFullYear p genreId genreMap (clearCache w)))
       = fetched w @ [discoverRequest p genreId]"
    by (simp add: fetchMoviesBasic_miss clearCache_fields)
  then show ?thesis
    by (simp add: clearCache_fields clearCache_storage)
qed

theorem clearCache_frame_and_refetch_witness:
  "fetched (snd (fetchMoviesBasic onePageServer isoYear 1 None Map.empty warmWorld)) = []
   \<and> fetched (snd (fetchMoviesBasic onePageServer isoYear 1 None Map.empty (clearCache warmWorld)))
       = [discoverRequest 1 None]
   \<and> map_option (\<lambda>st. (items st ''cart'', items st ''tmdb_cache_discover_page_1_all''))
        (localStorage (clearCache warmWorld)) = Some (Some Unparseable, None)"
proof -
  have hit: "fetched (snd (fetchMoviesBasic onePageServer isoYear 1 None Map.empty warmWorld)) = []"
    by (simp add: fetchMoviesBasic_def discoverKey_1 getFromCache_def warmWorld_def CACHE_TTL_def
          Let_def)
  have st: "localStorage warmWorld = Some
        \<lparr>items = [''tmdb_cache_discover_page_1_all'' \<mapsto> Json \<lparr>data = emptyPage, timestamp = 900\<rparr>,
                  ''cart'' \<mapsto> Unparseable],
         quotaExceeded = False\<rparr>"
    by (simp add: warmWorld_def)
  show ?thesis
    using clearCache_frame_and_refetch
            [where w = warmWorld and server = onePageServer and getFullYear = isoYear
               and p = 1 and genreId = None and genreMap = Map.empty]
          hit st
    by (auto simp add: warmWorld_def startsWith_def CACHE_PREFIX_def)
qed

subsection \<open>Catalogue client\<close>










text \<open>
  Claim C9. \<open>year\<close> is 0 for an empty release date. For a release date that is not
  empty and that the runtime reads as an invalid date, \<open>year\<close> is \<open>NaN\<close>, not 0.
\<close>

theorem transformTMDBMovie_year_malformed:
  assumes "gfy ''not-a-date'' = NaN"
  shows "year (transformTMDBMovie gfy (m\<lparr>release_date := ''not-a-date''\<rparr>) gm c d r) = NaN
         \<and> year (transformTMDBMovie gfy (m\<lparr>release_date := ''not-a-date''\<rparr>) gm c d r) \<noteq> Num 0
         \<and> year (transformTMDBMovie gfy (m\<lparr>release_date := []\<rparr>) gm c d r) = Num 0"
  using assms by (simp add: transformTMDBMovie_def)

theorem transformTMDBMovie_year_malformed_witness:
  "isoYear ''not-a-date'' = NaN
   \<and> year (transformTMDBMovie isoYear (sampleMovie\<lparr>release_date := ''not-a-date''\<rparr>)
             Map.empty ''NR'' None (1 / 2)) = NaN
   \<and> year (transformTMDBMovie isoYear sampleMovie Map.empty ''NR'' None (1 / 2)) = Num 1985"
  using transformTMDBMovie_year_malformed [of isoYear sampleMovie Map.empty "''NR''" None "1 / 2"]
  by (simp add: isoYear_def transformTMDBMovie_def sampleMovie_def)

subsection \<open>Enrichment pipeline\<close>

lemma details_success_is_cached:
  assumes "getMovieDetailsWithCertification server i w = (Inr d, w1)"
  shows "\<exists>e. memoryCache w1 (detailsKey i) = Some e \<and> data e = d
            \<and> now w1 - timestamp e < CACHE_TTL"
proof (cases "getFromCache (detailsKey i) w")
  case (Pair r w0)
  show ?thesis
  proof (cases r)
    case (Some c)
    with Pair assms have "d = c" "w1 = w0"
      by (simp_all add: getMovieDetailsWithCertification_def detailsKey_def)
    with getFromCache_Some(1) [of "detailsKey i" w c w0] Pair Some show ?thesis by simp
  next
    case None
    with Pair assms show ?thesis
      by (auto simp add: getMovieDetailsWithCertification_def detailsKey_def Let_def
            saveToCache_fields CACHE_TTL_def split: prod.splits sum.splits)
  qed
qed

lemma details_hit:
  assumes "memoryCache w (detailsKey i) = Some e" and "now w - timestamp e < CACHE_TTL"
  shows "getMovieDetailsWithCertification server i w = (Inr (data e), w)"
  using getFromCache_hit [OF assms]
  by (simp add: getMovieDetailsWithCertification_def detailsKey_def)

lemma enrich_success:
  "getMovieDetailsWithCertification server (movie_id movie) w = (Inr (DetailsData c), w1)
     \<Longrightarrow> enrichMovieWithDetails server movie w = (merged c movie, w1)"
  by (simp add: enrichMovieWithDetails_def)

lemma merged_idem: "merged c (merged c movie) = merged c movie"
  by (simp add: merged_def split: option.splits)

lemma merged_id: "movie_id (merged c movie) = movie_id movie"
  by (simp add: merged_def)

lemmas eval_details =
  getMovieDetailsWithCertification_def fetchTMDBQueued_def fetchTMDB_def
  getFromCache_def fromStorage_def readStorage_def getItem_def setItem_def saveToCache_def
  extractUSCertification_def usEntry_def truthy_def Let_def TMDBMovieDetails.defs

text \<open>
  Claim C7. After an enrichment whose details call succeeded, the details are in the
  in-memory cache, and enriching the result again is a cache hit: no request is sent, no
  unit is admitted to the queue, the world is unchanged and the movie returned equals the
  result of the first enrichment. The same holds at any later time at which the cached
  entry has not expired.
\<close>

theorem enrichMovieWithDetails_idempotent:
  assumes first: "getMovieDetailsWithCertification server (movie_id movie) w
                    = (Inr (DetailsData c), w1)"
  shows "snd (enrichMovieWithDetails server movie w) = w1
       \<and> enrichMovieWithDetails server (fst (enrichMovieWithDetails server movie w)) w1
           = (fst (enrichMovieWithDetails server movie w), w1)
       \<and> fetched (snd (enrichMovieWithDetails server
                          (fst (enrichMovieWithDetails server movie w)) w1)) = fetched w1
       \<and> queued (snd (enrichMovieWithDetails server
                         (fst (enrichMovieWithDetails server movie w)) w1)) = queued w1
       \<and> ((\<forall>e. memoryCache w1 (getCacheKey ''movie_details'' (toString (movie_id movie))) = Some e
                \<longrightarrow> now w1 + d - timestamp e < CACHE_TTL)
            \<longrightarrow> enrichMovieWithDetails server (fst (enrichMovieWithDetails server movie w))
                  (w1\<lparr>now := now w1 + d\<rparr>)
                 = (fst (enrichMovieWithDetails server movie w), w1\<lparr>now := now w1 + d\<rparr>))"
proof -
  from details_success_is_cached [OF first] obtain e where
    e: "memoryCache w1 (detailsKey (movie_id movie)) = Some e" "data e = DetailsData c"
       "now w1 - timestamp e < CACHE_TTL"
    by blast
  have hit: "enrichMovieWithDetails server (merged c movie) (w1\<lparr>now := t\<rparr>)
               = (merged c movie, w1\<lparr>now := t\<rparr>)"
    if "t - timestamp e < CACHE_TTL" for t
  proof -
    have "getMovieDetailsWithCertification server (movie_id (merged c movie)) (w1\<lparr>now := t\<rparr>)
            = (Inr (DetailsData c), w1\<lparr>now := t\<rparr>)"
      using details_hit [of "w1\<lparr>now := t\<rparr>" "movie_id movie" e server] e that
      by (simp add: merged_id)
    then show ?thesis
      using enrich_success [of server "merged c movie" "w1\<lparr>now := t\<rparr>" c "w1\<lparr>now := t\<rparr>"]
      by (simp add: merged_idem)
  qed
  have same: "enrichMovieWithDetails server (merged c movie) w1 = (merged c movie, w1)"
    using hit [of "now w1"] e(3) by simp
  have later: "(\<forall>e. memoryCache w1 (getCacheKey ''movie_details'' (toString (movie_id movie))) = Some e
                \<longrightarrow> now w1 + d - timestamp e < CACHE_TTL)
            \<longrightarrow> enrichMovieWithDetails server (merged c movie) (w1\<lparr>now := now w1 + d\<rparr>)
                 = (merged c movie, w1\<lparr>now := now w1 + d\<rparr>)"
    using hit [of "now w1 + d"] e(1) by (simp add: detailsKey_def)
  show ?thesis
    using enrich_success [OF first] same later by simp
qed

theorem enrichMovieWithDetails_idempotent_witness:
  "fetched (snd (enrichMovieWithDetails detailsServer basicMovie emptyWorld))
     = [(''/movie/105'', [(''append_to_response'', ''release_dates''), (''language'', ''en-US'')])]
   \<and> rating (fst (enrichMovieWithDetails detailsServer basicMovie emptyWorld)) = ''PG''
   \<and> enrichMovieWithDetails detailsServer
        (fst (enrichMovieWithDetails detailsServer basicMovie emptyWorld))
        (snd (enrichMovieWithDetails detailsServer basicMovie emptyWorld))
       = (fst (enrichMovieWithDetails detailsServer basicMovie emptyWorld),
          snd (enrichMovieWithDetails detailsServer basicMovie emptyWorld))
   \<and> enrichMovieWithDetails detailsServer
        (fst (enrichMovieWithDetails detailsServer basicMovie emptyWorld))
        ((snd (enrichMovieWithDetails detailsServer basicMovie emptyWorld))\<lparr>now := 6000\<rparr>)
       = (fst (enrichMovieWithDetails detailsServer basicMovie emptyWorld),
          (snd (enrichMovieWithDetails detailsServer basicMovie emptyWorld))\<lparr>now := 6000\<rparr>)"
proof -
  let ?G = "getMovieDetailsWithCertification detailsServer (movie_id basicMovie) emptyWorld"
  have i: "movie_id basicMovie = 105"
    by (simp add: basicMovie_def transformTMDBMovie_def sampleMovie_def)
  have first: "?G = (Inr (DetailsData \<lparr>details = TMDBMovieDetails.truncate sampleDetails,
                                        cached_certification = ''PG''\<rparr>), snd ?G)"
    unfolding i
    by (simp add: eval_details detailsServer_def emptyWorld_def sampleDetails_def)
  have w1: "now (snd ?G) = 1000"
    "fetched (snd ?G)
       = [(''/movie/105'', [(''append_to_response'', ''release_dates''), (''language'', ''en-US'')])]"
    "\<exists>e. memoryCache (snd ?G) (getCacheKey ''movie_details'' (toString 105)) = Some e
          \<and> timestamp e = 1000"
    unfolding i
    by (simp_all add: eval_details detailsServer_def emptyWorld_def sampleDetails_def toString_105)
  have fresh: "\<forall>e. memoryCache (snd ?G)
                    (getCacheKey ''movie_details'' (toString (movie_id basicMovie))) = Some e
                  \<longrightarrow> now (snd ?G) + 5000 - timestamp e < CACHE_TTL"
    using w1 unfolding i by (auto simp add: CACHE_TTL_def)
  note T = enrichMovieWithDetails_idempotent [OF first, of 5000]
  have r: "rating (fst (enrichMovieWithDetails detailsServer basicMovie emptyWorld)) = ''PG''"
    using enrich_success [OF first] by (simp add: merged_def)
  have s: "snd (enrichMovieWithDetails detailsServer basicMovie emptyWorld) = snd ?G"
    using T by blast
  show ?thesis
    unfolding s using T fresh r w1 by simp
qed

text \<open>
  Claim C2, amended. When the details call succeeds, the result copies the movie with
  the tagline, the runtime and the genre names replaced by the fetched values only where
  those are non-empty (a runtime neither \<open>null\<close> nor zero), so a populated tagline,
  runtime or genre list never becomes empty; every other field but the rating is
  unchanged. The rating is always replaced by the fetched certification, which is \<open>NR\<close>
  when the answer lists no US certification: a movie rated \<open>PG\<close> comes back as \<open>NR\<close>.
\<close>

theorem enrichMovieWithDetails_fields:
  assumes "getMovieDetailsWithCertification server (movie_id movie) w = (Inr (DetailsData c), w1)"
  shows "tagline (fst (enrichMovieWithDetails server movie w))
           = (if details_tagline (details c) \<noteq> [] then details_tagline (details c)
              else tagline movie)
       \<and> runtime (fst (enrichMovieWithDetails server movie w))
           = (case details_runtime (details c) of
                None \<Rightarrow> runtime movie
              | Some n \<Rightarrow> if n \<noteq> 0 then toString n @ '' min'' else runtime movie)
       \<and> genre (fst (enrichMovieWithDetails server movie w))
           = (if genres (details c) \<noteq> [] then map name (genres (details c)) else genre movie)
       \<and> rating (fst (enrichMovieWithDetails server movie w)) = cached_certification c
       \<and> (tagline movie \<noteq> [] \<longrightarrow> tagline (fst (enrichMovieWithDetails server movie w)) \<noteq> [])
       \<and> (runtime movie \<noteq> [] \<longrightarrow> runtime (fst (enrichMovieWithDetails server movie w)) \<noteq> [])
       \<and> (genre movie \<noteq> [] \<longrightarrow> genre (fst (enrichMovieWithDetails server movie w)) \<noteq> [])
       \<and> fst (enrichMovieWithDetails server movie w)
           = movie\<lparr>tagline := tagline (fst (enrichMovieWithDetails server movie w)),
                   runtime := runtime (fst (enrichMovieWithDetails server movie w)),
                   rating := rating (fst (enrichMovieWithDetails server movie w)),
                   genre := genre (fst (enrichMovieWithDetails server movie w))\<rparr>"
  using assms
  by (simp add: enrichMovieWithDetails_def merged_def split: option.splits)

theorem enrichMovieWithDetails_fields_witness:
  "fst (enrichMovieWithDetails bareServer ratedMovie emptyWorld) = ratedMovie\<lparr>rating := ''NR''\<rparr>
   \<and> fst (enrichMovieWithDetails detailsServer
            (transformTMDBMovie isoYear sampleMovie Map.empty ''NR'' None (1 / 2)) emptyWorld)
       = \<lparr>movie_id = 105, title = ''Back to the Future'', year = Num 1985,
          genre = [''Adventure'', ''Comedy''], tagline = ''He was never in time for his classes.'',
          rating = ''PG'', runtime = ''116 min'', available = True, poster = ''/bttf.jpg'',
          backdrop = None, tmdbRating = Some (83 / 10),
          overview = Some ''A teenager travels in time.''\<rparr>"
proof -
  have a: "getMovieDetailsWithCertification bareServer (movie_id ratedMovie) emptyWorld
          = (Inr (DetailsData
               \<lparr>details = TMDBMovieDetails.truncate
                    (sampleDetails\<lparr>details_tagline := [], details_runtime := None, genres := [],
                                    resp_release_dates := None\<rparr>),
                cached_certification = ''NR''\<rparr>),
             snd (getMovieDetailsWithCertification bareServer (movie_id ratedMovie) emptyWorld))"
    by (simp add: eval_details bareServer_def emptyWorld_def ratedMovie_def sampleDetails_def)
  have b: "getMovieDetailsWithCertification detailsServer
             (movie_id (transformTMDBMovie isoYear sampleMovie Map.empty ''NR'' None (1 / 2)))
             emptyWorld
          = (Inr (DetailsData
               \<lparr>details = TMDBMovieDetails.truncate sampleDetails, cached_certification = ''PG''\<rparr>),
             snd (getMovieDetailsWithCertification detailsServer
                    (movie_id (transformTMDBMovie isoYear sampleMovie Map.empty ''NR'' None (1 / 2)))
                    emptyWorld))"
    by (simp add: eval_details detailsServer_def emptyWorld_def sampleDetails_def
          transformTMDBMovie_def sampleMovie_def)
  have s: "toString 116 = ''116''"
    by (simp add: toString_def toStringNat.simps digit_def)
  let ?X = "fst (enrichMovieWithDetails bareServer ratedMovie emptyWorld)"
  let ?m = "transformTMDBMovie isoYear sampleMovie Map.empty ''NR'' None (1 / 2)"
  let ?Y = "fst (enrichMovieWithDetails detailsServer ?m emptyWorld)"
  note A = enrichMovieWithDetails_fields [OF a]
  note B = enrichMovieWithDetails_fields [OF b]
  have xf: "tagline ?X = tagline ratedMovie" "runtime ?X = runtime ratedMovie"
    "genre ?X = genre ratedMovie" "rating ?X = ''NR''"
    using A by (simp_all add: sampleDetails_def TMDBMovieDetails.defs)
  have "?X = ratedMovie\<lparr>tagline := tagline ?X, runtime := runtime ?X, rating := rating ?X,
                          genre := genre ?X\<rparr>"
    using A by blast
  then have x: "?X = ratedMovie\<lparr>rating := ''NR''\<rparr>"
    unfolding xf by (simp add: ratedMovie_def)
  have yf: "tagline ?Y = ''He was never in time for his classes.''" "runtime ?Y = ''116 min''"
    "genre ?Y = [''Adventure'', ''Comedy'']" "rating ?Y = ''PG''"
    using B by (simp_all add: sampleDetails_def TMDBMovieDetails.defs s)
  have "?Y = ?m\<lparr>tagline := tagline ?Y, runtime := runtime ?Y, rating := rating ?Y,
                  genre := genre ?Y\<rparr>"
    using B by blast
  then have y: "?Y = \<lparr>movie_id = 105, title = ''Back to the Future'', year = Num 1985,
          genre = [''Adventure'', ''Comedy''], tagline = ''He was never in time for his classes.'',
          rating = ''PG'', runtime = ''116 min'', available = True, poster = ''/bttf.jpg'',
          backdrop = None, tmdbRating = Some (83 / 10),
          overview = Some ''A teenager travels in time.''\<rparr>"
    unfolding yf
    by (simp add: transformTMDBMovie_def sampleMovie_def isoYear_def double_0_1_def)
  show ?thesis using x y by simp
qed

theorem enrichMovieWithDetails_rating_counterexample:
  "rating ratedMovie = ''PG''
   \<and> fst (getMovieDetailsWithCertification bareServer (movie_id ratedMovie) emptyWorld)
       = Inr (DetailsData
           \<lparr>details = TMDBMovieDetails.truncate
                (sampleDetails\<lparr>details_tagline := [], details_runtime := None, genres := [],
                                resp_release_dates := None\<rparr>),
            cached_certification = ''NR''\<rparr>)
   \<and> rating (fst (enrichMovieWithDetails bareServer ratedMovie emptyWorld)) = ''NR''"
  by (simp add: enrichMovieWithDetails_def merged_def eval_details bareServer_def emptyWorld_def
        ratedMovie_def sampleDetails_def)

lemma fetchMoviesBasic_cold:
  assumes cold: "fst (getFromCache (discoverKey p g) w) = None"
    and resp: "server (discoverRequest p g) (length (fetched w)) = Inr response"
    and ne: "results response \<noteq> []"
  shows "\<exists>result w1. fetchMoviesBasic server gfy p g gm w = (Inr result, w1)
           \<and> fetched w1 = fetched w @ [discoverRequest p g]
           \<and> memoryCache w1 (discoverKey p g) = Some \<lparr>data = result, timestamp = now w1\<rparr>"
proof -
  obtain w0 where w0: "getFromCache (discoverKey p g) w = (None, w0)"
    using cold by (cases "getFromCache (discoverKey p g) w") simp
  have fr: "fetched w0 = fetched w" "now w0 = now w"
    using getFromCache_frame [of "discoverKey p g" w] w0 by simp_all
  show ?thesis
    using w0 resp ne fr
    by (simp add: fetchMoviesBasic_def discoverMovies_def fetchTMDB_def Let_def
          discoverRequest_def saveToCache_fields transformAll_fields)
qed

lemma fetchMoviesBasic_hit:
  assumes "memoryCache w (discoverKey p g) = Some e" and "now w - timestamp e < CACHE_TTL"
  shows "fetchMoviesBasic server gfy p g gm w = (Inr (data e), w)"
  using getFromCache_hit [OF assms] by (simp add: fetchMoviesBasic_def)

text \<open>
  Claim C1, amended. Starting from a cache that misses for the page, when the server
  answers the request with a page of at least one movie, \<open>fetchMoviesBasic\<close> sends
  exactly one request, and a second call with the same arguments, made less than 24
  hours later, sends none and returns the value the first call returned. A page with no
  results is returned without being cached: there the second call sends a second request.
\<close>

theorem fetchMoviesBasic_second_call_cached:
  assumes cold: "fst (getFromCache (discoverKey p genreId) w) = None"
    and resp: "server (discoverRequest p genreId) (length (fetched w)) = Inr response"
    and ne: "results response \<noteq> []"
    and soon: "d < CACHE_TTL"
  shows "fetched (snd (fetchMoviesBasic server getFullYear p genreId genreMap w))
           = fetched w @ [discoverRequest p genreId]
       \<and> fetchMoviesBasic server getFullYear p genreId genreMap
            ((snd (fetchMoviesBasic server getFullYear p genreId genreMap w))
               \<lparr>now := now (snd (fetchMoviesBasic server getFullYear p genreId genreMap w)) + d\<rparr>)
           = (fst (fetchMoviesBasic server getFullYear p genreId genreMap w),
              (snd (fetchMoviesBasic server getFullYear p genreId genreMap w))
               \<lparr>now := now (snd (fetchMoviesBasic server getFullYear p genreId genreMap w)) + d\<rparr>)"
proof -
  from fetchMoviesBasic_cold [where server = server and gfy = getFullYear and gm = genreMap, OF cold resp ne] obtain result w1 where
    f: "fetchMoviesBasic server getFullYear p genreId genreMap w = (Inr result, w1)"
       "fetched w1 = fetched w @ [discoverRequest p genreId]"
       "memoryCache w1 (discoverKey p genreId) = Some \<lparr>data = result, timestamp = now w1\<rparr>"
    by blast
  have "fetchMoviesBasic server getFullYear p genreId genreMap (w1\<lparr>now := now w1 + d\<rparr>)
          = (Inr result, w1\<lparr>now := now w1 + d\<rparr>)"
    using fetchMoviesBasic_hit [of "w1\<lparr>now := now w1 + d\<rparr>" p genreId
            "\<lparr>data = result, timestamp = now w1\<rparr>" server getFullYear genreMap] f(3) soon
    by simp
  with f show ?thesis by simp
qed

theorem fetchMoviesBasic_second_call_cached_witness:
  "fetched (snd (fetchMoviesBasic onePageServer isoYear 1 None Map.empty emptyWorld))
     = [discoverRequest 1 None]
   \<and> fetched (snd (fetchMoviesBasic onePageServer isoYear 1 None Map.empty
        ((snd (fetchMoviesBasic onePageServer isoYear 1 None Map.empty emptyWorld))
           \<lparr>now := now (snd (fetchMoviesBasic onePageServer isoYear 1 None Map.empty emptyWorld))
                     + 5000\<rparr>)))
     = [discoverRequest 1 None]"
proof -
  have cold: "fst (getFromCache (discoverKey 1 None) emptyWorld) = None"
    by (simp add: getFromCache_def fromStorage_def readStorage_def getItem_def emptyWorld_def)
  have resp: "onePageServer (discoverRequest 1 None) (length (fetched emptyWorld))
                = Inr \<lparr>page = 1, results = [sampleMovie], total_pages = 1, total_results = 1\<rparr>"
    by (simp add: onePageServer_def)
  have ne: "results \<lparr>page = 1, results = [sampleMovie], total_pages = 1, total_results = 1\<rparr> \<noteq> []"
    by simp
  have soon: "(5000::int) < CACHE_TTL" by (simp add: CACHE_TTL_def)
  show ?thesis
    using fetchMoviesBasic_second_call_cached
            [where server = onePageServer and getFullYear = isoYear and genreMap = Map.empty,
             OF cold resp ne soon]
    by (simp add: emptyWorld_def)
qed

theorem fetchMoviesBasic_empty_page_counterexample:
  "fetched (snd (fetchMoviesBasic emptyPageServer isoYear 1 None Map.empty
             (snd (fetchMoviesBasic emptyPageServer isoYear 1 None Map.empty emptyWorld))))
     = [discoverRequest 1 None, discoverRequest 1 None]"
  by (simp add: fetchMoviesBasic_def discoverMovies_def fetchTMDB_def discoverRequest_def
        getFromCache_def fromStorage_def readStorage_def getItem_def emptyWorld_def
        emptyPageServer_def Let_def)

subsection \<open>Simulated availability\<close>

lemma transformAll_closed:
  "fst (transformAll gfy gm ms w) = drawnMovies gfy gm ms (randoms w) (drawn w)
   \<and> drawn (snd (transformAll gfy gm ms w)) = drawn w + length ms
   \<and> randoms (snd (transformAll gfy gm ms w)) = randoms w"
proof (induction ms arbitrary: w)
  case Nil
  show ?case by (simp add: drawnMovies_def)
next
  case (Cons m ms)
  show ?case
    using Cons.IH [of "w\<lparr>drawn := Suc (drawn w)\<rparr>"]
    by (simp add: drawnMovies_def Let_def map_upt_Suc del: upt_Suc)
qed

lemma fromStorage_random:
  "drawn (snd (fromStorage key w)) = drawn w \<and> randoms (snd (fromStorage key w)) = randoms w"
proof (cases "localStorage w")
  case None
  then show ?thesis by (simp add: fromStorage_unavailable)
next
  case (Some st)
  then show ?thesis
    by (simp add: fromStorage_item [OF Some] split: option.splits stored.splits)
qed

lemma getFromCache_random:
  "drawn (snd (getFromCache key w)) = drawn w \<and> randoms (snd (getFromCache key w)) = randoms w"
  by (simp add: getFromCache_def fromStorage_random split: option.splits)

lemma saveToCache_random:
  "drawn (saveToCache key d w) = drawn w" "randoms (saveToCache key d w) = randoms w"
  by (simp_all add: saveToCache_def setItem_def Let_def split: option.splits)

lemma fetchMoviesBasic_cold_page:
  assumes cold: "fst (getFromCache (discoverKey p g) w) = None"
    and resp: "server (discoverRequest p g) (length (fetched w)) = Inr response"
    and ne: "results response \<noteq> []"
  shows "fst (fetchMoviesBasic server gfy p g gm w) = drawnPage gfy gm response (randoms w) (drawn w)"
    and "drawn (snd (fetchMoviesBasic server gfy p g gm w)) = drawn w + length (results response)"
    and "randoms (snd (fetchMoviesBasic server gfy p g gm w)) = randoms w"
proof -
  obtain w0 where w0: "getFromCache (discoverKey p g) w = (None, w0)"
    using cold by (cases "getFromCache (discoverKey p g) w") simp
  have fr: "fetched w0 = fetched w" "drawn w0 = drawn w" "randoms w0 = randoms w"
    using getFromCache_frame [of "discoverKey p g" w] getFromCache_random [of "discoverKey p g" w] w0
    by simp_all
  let ?w2 = "w0\<lparr>fetched := fetched w0 @ [discoverRequest p g]\<rparr>"
  have tr: "fst (transformAll gfy gm (results response) ?w2)
              = drawnMovies gfy gm (results response) (randoms w) (drawn w)"
    "drawn (snd (transformAll gfy gm (results response) ?w2)) = drawn w + length (results response)"
    "randoms (snd (transformAll gfy gm (results response) ?w2)) = randoms w"
    using transformAll_closed [of gfy gm "results response" ?w2] fr by simp_all
  have F: "fetchMoviesBasic server gfy p g gm w =
      (let tr = transformAll gfy gm (results response) ?w2;
           result = PageData \<lparr>movies = fst tr, totalPages = total_pages response,
                               totalResults = total_results response\<rparr>
       in (Inr result, saveToCache (discoverKey p g) result (snd tr)))"
    using w0 resp ne fr
    by (simp add: fetchMoviesBasic_def discoverMovies_def fetchTMDB_def discoverRequest_def Let_def)
  show "fst (fetchMoviesBasic server gfy p g gm w) = drawnPage gfy gm response (randoms w) (drawn w)"
    and "drawn (snd (fetchMoviesBasic server gfy p g gm w)) = drawn w + length (results response)"
    and "randoms (snd (fetchMoviesBasic server gfy p g gm w)) = randoms w"
    unfolding F by (simp_all add: Let_def tr drawnPage_def saveToCache_random)
qed

lemma filter_from: "filter (\<lambda>k. a \<le> k) [0..<N] = [a..<N]"
  by (induction N) (auto simp add: not_less_eq_eq)

lemma above_double:
  assumes "0 < N"
  shows "(double_0_1 < real k / real N) = (nat \<lfloor>double_0_1 * real N\<rfloor> + 1 \<le> k)"
proof -
  have pos: "0 \<le> double_0_1 * real N" by (simp add: double_0_1_def)
  have "(double_0_1 < real k / real N) = (double_0_1 * real N < real k)"
    using assms by (simp add: field_simps)
  also have "\<dots> = (\<lfloor>double_0_1 * real N\<rfloor> < int k)"
    by (metis floor_less_iff of_int_of_nat_eq)
  also have "\<dots> = (nat \<lfloor>double_0_1 * real N\<rfloor> + 1 \<le> k)"
    using pos by linarith
  finally show ?thesis .
qed

lemma probability_available:
  assumes "0 < N"
  shows "probability (\<lambda>r. double_0_1 < r) (grid N)
           = 1 - real (nat \<lfloor>double_0_1 * real N\<rfloor> + 1) / real N"
proof -
  let ?a = "nat \<lfloor>double_0_1 * real N\<rfloor> + 1"
  have le: "?a \<le> N"
  proof -
    have "double_0_1 * real N < real N" using assms by (simp add: double_0_1_def)
    then have "\<lfloor>double_0_1 * real N\<rfloor> < int N" by (metis floor_less_iff of_int_of_nat_eq)
    moreover have "0 \<le> \<lfloor>double_0_1 * real N\<rfloor>" by (simp add: double_0_1_def)
    ultimately show ?thesis by linarith
  qed
  have "filter (\<lambda>r. double_0_1 < r) (grid N) = map (\<lambda>k. real k / real N) [?a..<N]"
    using above_double [OF assms]
    by (simp add: grid_def filter_map comp_def filter_from)
  then have "probability (\<lambda>r. double_0_1 < r) (grid N) = real (N - ?a) / real N"
    by (simp add: probability_def grid_def)
  also have "\<dots> = 1 - real ?a / real N"
    using le assms by (simp add: of_nat_diff diff_divide_distrib)
  finally show ?thesis .
qed

lemma probability_near_nine_tenths:
  assumes "0 < N"
  shows "\<bar>probability (\<lambda>r. double_0_1 < r) (grid N) - 9 / 10\<bar> \<le> 1 / real N + 1 / 10 ^ 17"
proof -
  let ?c = "double_0_1 * real N"
  have n: "0 < real N" using assms by simp
  have pos: "0 \<le> ?c" by (simp add: double_0_1_def)
  have a: "real (nat \<lfloor>?c\<rfloor> + 1) = of_int \<lfloor>?c\<rfloor> + 1" using pos by simp
  have lo: "?c < of_int \<lfloor>?c\<rfloor> + 1" by linarith
  have hi: "of_int \<lfloor>?c\<rfloor> \<le> ?c" by linarith
  have d1: "1 / 10 < double_0_1" by (simp add: double_0_1_def)
  have d2: "double_0_1 < 1 / 10 + 1 / 10 ^ 17" by (simp add: double_0_1_def)
  have q_lo: "double_0_1 < (of_int \<lfloor>?c\<rfloor> + 1) / real N"
    using lo n by (simp add: field_simps)
  have q_hi: "(of_int \<lfloor>?c\<rfloor> + 1) / real N \<le> double_0_1 + 1 / real N"
    using hi n by (simp add: field_simps)
  show ?thesis
    unfolding probability_available [OF assms] a
    using q_lo q_hi d1 d2 by (simp add: abs_le_iff) 
qed

lemma pageAvailability_drawnPage:
  "pageAvailability (drawnPage gfy gm response rnd k)
     = map (\<lambda>i. double_0_1 < rnd (k + i)) [0..<length (results response)]"
  by (simp add: pageAvailability_def drawnPage_def drawnMovies_def transformTMDBMovie_def comp_def)

lemma fetchMoviesBasic_three_calls:
  assumes cold: "fst (getFromCache (discoverKey p g) w) = None"
    and resp1: "server (discoverRequest p g) (length (fetched w)) = Inr response"
    and resp2: "server (discoverRequest p g) (Suc (length (fetched w))) = Inr response"
    and ne: "results response \<noteq> []"
  shows "fst (fetchMoviesBasic server gfy p g gm w)
           = drawnPage gfy gm response (randoms w) (drawn w)
       \<and> fetchMoviesBasic server gfy p g gm (snd (fetchMoviesBasic server gfy p g gm w))
           = (fst (fetchMoviesBasic server gfy p g gm w), snd (fetchMoviesBasic server gfy p g gm w))
       \<and> fst (fetchMoviesBasic server gfy p g gm
                (clearCache (snd (fetchMoviesBasic server gfy p g gm w))))
           = drawnPage gfy gm response (randoms w) (drawn w + length (results response))"
proof -
  let ?F = "fetchMoviesBasic server gfy p g gm"
  note page = fetchMoviesBasic_cold_page [where server = server and gfy = gfy and gm = gm,
                OF cold resp1 ne]
  from fetchMoviesBasic_cold [where server = server and gfy = gfy and gm = gm, OF cold resp1 ne]
  obtain result w1 where
    f: "?F w = (Inr result, w1)" "fetched w1 = fetched w @ [discoverRequest p g]"
       "memoryCache w1 (discoverKey p g) = Some \<lparr>data = result, timestamp = now w1\<rparr>"
    by blast
  have cached: "?F w1 = (Inr result, w1)"
    using fetchMoviesBasic_hit [of w1 p g "\<lparr>data = result, timestamp = now w1\<rparr>" server gfy gm] f(3)
    by (simp add: CACHE_TTL_def)
  have w1: "drawn w1 = drawn w + length (results response)" "randoms w1 = randoms w"
    using page(2,3) f(1) by simp_all
  have cold': "fst (getFromCache (discoverKey p g) (clearCache w1)) = None"
    by (simp add: getFromCache_after_clearCache discoverKey_def startsWith_getCacheKey)
  have resp': "server (discoverRequest p g) (length (fetched (clearCache w1))) = Inr response"
    using resp2 f(2) by (simp add: clearCache_fields)
  have again: "fst (?F (clearCache w1))
                 = drawnPage gfy gm response (randoms w) (drawn w + length (results response))"
    using fetchMoviesBasic_cold_page(1) [where server = server and gfy = gfy and gm = gm,
            OF cold' resp' ne]
    by (simp add: clearCache_fields w1)
  show ?thesis
    using page(1) f(1) cached again by simp
qed

text \<open>
  Claim C10. For the same arguments, two calls of \<open>transformTMDBMovie\<close> agree on every
  field but \<open>available\<close>, whatever the random source returns; \<open>available\<close> is the test
  that the number drawn exceeds the double 0.1, and two draws can give different values.
  Each call draws afresh: \<open>transformAll\<close> gives the \<open>i\<close>-th movie of a page the next
  unused number of the random sequence and advances the position by the length of the
  page. So for a page fetched into a cold cache, the cached call returns the page with
  the same flags, and a fetch of the same page after \<open>clearCache\<close> returns the same
  movies with flags taken from the following draws, which can differ. Under a source
  that is uniform on \<open>N\<close> equally spaced values of the unit interval, \<open>available\<close> is
  true with a probability that differs from 0.9 by at most the resolution \<open>1 / N\<close> plus
  the rounding of the literal 0.1.
\<close>

theorem transformTMDBMovie_deterministic_except_available:
  "movie_id (transformTMDBMovie gfy m gm c d ra) = movie_id (transformTMDBMovie gfy m gm c d rb)
   \<and> title (transformTMDBMovie gfy m gm c d ra) = title (transformTMDBMovie gfy m gm c d rb)
   \<and> year (transformTMDBMovie gfy m gm c d ra) = year (transformTMDBMovie gfy m gm c d rb)
   \<and> genre (transformTMDBMovie gfy m gm c d ra) = genre (transformTMDBMovie gfy m gm c d rb)
   \<and> tagline (transformTMDBMovie gfy m gm c d ra) = tagline (transformTMDBMovie gfy m gm c d rb)
   \<and> rating (transformTMDBMovie gfy m gm c d ra) = rating (transformTMDBMovie gfy m gm c d rb)
   \<and> runtime (transformTMDBMovie gfy m gm c d ra) = runtime (transformTMDBMovie gfy m gm c d rb)
   \<and> poster (transformTMDBMovie gfy m gm c d ra) = poster (transformTMDBMovie gfy m gm c d rb)
   \<and> backdrop (transformTMDBMovie gfy m gm c d ra) = backdrop (transformTMDBMovie gfy m gm c d rb)
   \<and> tmdbRating (transformTMDBMovie gfy m gm c d ra)
       = tmdbRating (transformTMDBMovie gfy m gm c d rb)
   \<and> overview (transformTMDBMovie gfy m gm c d ra) = overview (transformTMDBMovie gfy m gm c d rb)
   \<and> available (transformTMDBMovie gfy m gm c d ra) = (double_0_1 < ra)
   \<and> available (transformTMDBMovie gfy m gm c d (1 / 2))
       \<noteq> available (transformTMDBMovie gfy m gm c d (1 / 20))
   \<and> fst (transformAll gfy gm ms w) = drawnMovies gfy gm ms (randoms w) (drawn w)
   \<and> map available (fst (transformAll gfy gm ms w))
       = map (\<lambda>i. double_0_1 < randoms w (drawn w + i)) [0..<length ms]
   \<and> drawn (snd (transformAll gfy gm ms w)) = drawn w + length ms
   \<and> (fst (getFromCache (discoverKey p genreId) w) = None
        \<and> server (discoverRequest p genreId) (length (fetched w)) = Inr response
        \<and> server (discoverRequest p genreId) (Suc (length (fetched w))) = Inr response
        \<and> results response \<noteq> []
      \<longrightarrow> fst (fetchMoviesBasic server gfy p genreId gm w)
            = drawnPage gfy gm response (randoms w) (drawn w)
        \<and> fetchMoviesBasic server gfy p genreId gm (snd (fetchMoviesBasic server gfy p genreId gm w))
            = (fst (fetchMoviesBasic server gfy p genreId gm w),
               snd (fetchMoviesBasic server gfy p genreId gm w))
        \<and> fst (fetchMoviesBasic server gfy p genreId gm
                 (clearCache (snd (fetchMoviesBasic server gfy p genreId gm w))))
            = drawnPage gfy gm response (randoms w) (drawn w + length (results response)))
   \<and> (0 < N \<longrightarrow>
        \<bar>probability (\<lambda>r. available (transformTMDBMovie gfy m gm c d r)) (grid N) - 9 / 10\<bar>
          \<le> 1 / real N + 1 / 10 ^ 17)"
proof -
  have fields: "transformTMDBMovie gfy m gm c d ra
                  = (transformTMDBMovie gfy m gm c d rb)\<lparr>available := double_0_1 < ra\<rparr>"
    by (simp add: transformTMDBMovie_def)
  have av: "available (transformTMDBMovie gfy m gm c d r) = (double_0_1 < r)" for r
    by (simp add: transformTMDBMovie_def)
  have flip: "available (transformTMDBMovie gfy m gm c d (1 / 2))
       \<noteq> available (transformTMDBMovie gfy m gm c d (1 / 20))"
    by (simp add: av double_0_1_def)
  note all = transformAll_closed [of gfy gm ms w]
  have avs: "map available (fst (transformAll gfy gm ms w))
       = map (\<lambda>i. double_0_1 < randoms w (drawn w + i)) [0..<length ms]"
    by (simp add: all drawnMovies_def transformTMDBMovie_def comp_def)
  have pages: "fst (getFromCache (discoverKey p genreId) w) = None
        \<and> server (discoverRequest p genreId) (length (fetched w)) = Inr response
        \<and> server (discoverRequest p genreId) (Suc (length (fetched w))) = Inr response
        \<and> results response \<noteq> []
      \<longrightarrow> fst (fetchMoviesBasic server gfy p genreId gm w)
            = drawnPage gfy gm response (randoms w) (drawn w)
        \<and> fetchMoviesBasic server gfy p genreId gm (snd (fetchMoviesBasic server gfy p genreId gm w))
            = (fst (fetchMoviesBasic server gfy p genreId gm w),
               snd (fetchMoviesBasic server gfy p genreId gm w))
        \<and> fst (fetchMoviesBasic server gfy p genreId gm
                 (clearCache (snd (fetchMoviesBasic server gfy p genreId gm w))))
            = drawnPage gfy gm response (randoms w) (drawn w + length (results response))"
    using fetchMoviesBasic_three_calls [where server = server and gfy = gfy and gm = gm
            and w = w and p = p and g = genreId and response = response]
    by blast
  have prob: "0 < N \<longrightarrow>
        \<bar>probability (\<lambda>r. available (transformTMDBMovie gfy m gm c d r)) (grid N) - 9 / 10\<bar>
          \<le> 1 / real N + 1 / 10 ^ 17"
    using probability_near_nine_tenths [of N] by (simp add: av)
  have f1: "movie_id (transformTMDBMovie gfy m gm c d ra) = movie_id (transformTMDBMovie gfy m gm c d rb)"
    "title (transformTMDBMovie gfy m gm c d ra) = title (transformTMDBMovie gfy m gm c d rb)"
    "year (transformTMDBMovie gfy m gm c d ra) = year (transformTMDBMovie gfy m gm c d rb)"
    "genre (transformTMDBMovie gfy m gm c d ra) = genre (transformTMDBMovie gfy m gm c d rb)"
    "tagline (transformTMDBMovie gfy m gm c d ra) = tagline (transformTMDBMovie gfy m gm c d rb)"
    "rating (transformTMDBMovie gfy m gm c d ra) = rating (transformTMDBMovie gfy m gm c d rb)"
    "runtime (transformTMDBMovie gfy m gm c d ra) = runtime (transformTMDBMovie gfy m gm c d rb)"
    "poster (transformTMDBMovie gfy m gm c d ra) = poster (transformTMDBMovie gfy m gm c d rb)"
    "backdrop (transformTMDBMovie gfy m gm c d ra) = backdrop (transformTMDBMovie gfy m gm c d rb)"
    "tmdbRating (transformTMDBMovie gfy m gm c d ra) = tmdbRating (transformTMDBMovie gfy m gm c d rb)"
    "overview (transformTMDBMovie gfy m gm c d ra) = overview (transformTMDBMovie gfy m gm c d rb)"
    by (simp_all add: fields)
  show ?thesis
    by (intro conjI f1 av flip avs pages prob) (simp_all add: all)
qed

theorem transformTMDBMovie_deterministic_except_available_witness:
  "pageAvailability (fst (fetchMoviesBasic onePageServer isoYear 1 None Map.empty flipWorld)) = [True]
   \<and> pageAvailability (fst (fetchMoviesBasic onePageServer isoYear 1 None Map.empty
        (snd (fetchMoviesBasic onePageServer isoYear 1 None Map.empty flipWorld)))) = [True]
   \<and> pageAvailability (fst (fetchMoviesBasic onePageServer isoYear 1 None Map.empty
        (clearCache (snd (fetchMoviesBasic onePageServer isoYear 1 None Map.empty flipWorld)))))
       = [False]
   \<and> \<bar>probability
         (\<lambda>r. available (transformTMDBMovie isoYear sampleMovie Map.empty ''NR'' None r))
         (grid (2 ^ 53)) - 9 / 10\<bar> \<le> 1 / 2 ^ 53 + 1 / 10 ^ 17"
proof -
  have cold: "fst (getFromCache (discoverKey 1 None) flipWorld) = None"
    by (simp add: getFromCache_def fromStorage_def readStorage_def getItem_def flipWorld_def
          emptyWorld_def)
  have r: "onePageServer (discoverRequest 1 None) (length (fetched flipWorld))
             = Inr \<lparr>page = 1, results = [sampleMovie], total_pages = 1, total_results = 1\<rparr>"
    "onePageServer (discoverRequest 1 None) (Suc (length (fetched flipWorld)))
             = Inr \<lparr>page = 1, results = [sampleMovie], total_pages = 1, total_results = 1\<rparr>"
    by (simp_all add: onePageServer_def)
  have rn: "randoms flipWorld = (\<lambda>n. if n = 0 then 1 / 2 else 1 / 20)" "drawn flipWorld = 0"
    by (simp_all add: flipWorld_def emptyWorld_def)
  have ne: "results \<lparr>page = 1, results = [sampleMovie], total_pages = 1, total_results = 1\<rparr> \<noteq> []"
    by simp
  have npos: "0 < (2::nat) ^ 53" by simp
  let ?F = "fetchMoviesBasic onePageServer isoYear 1 None Map.empty"
  let ?resp = "\<lparr>page = 1, results = [sampleMovie], total_pages = 1, total_results = 1\<rparr>"
  note T = transformTMDBMovie_deterministic_except_available
             [where server = onePageServer and gfy = isoYear and gm = Map.empty and w = flipWorld
                and p = 1 and genreId = None and m = sampleMovie and c = "''NR''" and d = None
                and N = "2 ^ 53" and ra = 0 and rb = 0 and ms = "[]" and response = ?resp]
  have pages: "fst (?F flipWorld) = drawnPage isoYear Map.empty ?resp (randoms flipWorld) (drawn flipWorld)
       \<and> ?F (snd (?F flipWorld)) = (fst (?F flipWorld), snd (?F flipWorld))
       \<and> fst (?F (clearCache (snd (?F flipWorld))))
           = drawnPage isoYear Map.empty ?resp (randoms flipWorld)
               (drawn flipWorld + length (results ?resp))"
    using T cold r ne by blast
  have prob: "\<bar>probability
         (\<lambda>r. available (transformTMDBMovie isoYear sampleMovie Map.empty ''NR'' None r))
         (grid (2 ^ 53)) - 9 / 10\<bar> \<le> 1 / real (2 ^ 53) + 1 / 10 ^ 17"
    using T npos by blast
  have p1: "pageAvailability (fst (?F flipWorld)) = [True]"
    using pages by (simp add: pageAvailability_drawnPage rn double_0_1_def)
  have p2: "pageAvailability (fst (?F (snd (?F flipWorld)))) = [True]"
    using pages p1 by simp
  have p3: "pageAvailability (fst (?F (clearCache (snd (?F flipWorld))))) = [False]"
    using pages by (simp add: pageAvailability_drawnPage rn double_0_1_def)
  show ?thesis
    using p1 p2 p3 prob by simp
qed

end
